theory Spec2Isabelle
  imports Complex_Main "HOL-Library.Sublist"
begin

section \<open>JavaScript values\<close>

text \<open>
  The relay is TypeScript running on Node. Request bodies and tool arguments reach it
  as parsed JSON, so a value the code inspects at run time is one of the following.
  Numbers are modelled as reals: JSON carries no NaN, and the code only compares and
  adds them. A string is a list of 8-bit characters. An object lists its properties,
  each key once, as the parser leaves them.
\<close>

datatype js =
    JUndefined
  | JNull
  | JBool bool
  | JNum real
  | JStr string
  | JArr "js list"
  | JObj "(string \<times> js) list"

text \<open>Truthiness, as \<^verbatim>\<open>!x\<close> and \<^verbatim>\<open>x || y\<close> test it.\<close>

fun truthy :: "js \<Rightarrow> bool" where
  "truthy JUndefined = False"
| "truthy JNull = False"
| "truthy (JBool b) = b"
| "truthy (JNum r) = (r \<noteq> 0)"
| "truthy (JStr s) = (s \<noteq> [])"
| "truthy (JArr xs) = True"
| "truthy (JObj kvs) = True"

definition js_or :: "js \<Rightarrow> js \<Rightarrow> js" where
  "js_or a b = (if truthy a then a else b)"

fun is_string :: "js \<Rightarrow> bool" where
  "is_string (JStr s) = True"
| "is_string v = False"

fun is_number :: "js \<Rightarrow> bool" where
  "is_number (JNum r) = True"
| "is_number v = False"

text \<open>
  Reading a property that is not a built-in one (\<^verbatim>\<open>prompt\<close>, \<^verbatim>\<open>url\<close>,
  \<^verbatim>\<open>pathname\<close>, \<^verbatim>\<open>timeout_seconds\<close>): an object yields the stored value or
  \<^verbatim>\<open>undefined\<close>, every other value that can be read from yields \<^verbatim>\<open>undefined\<close>.
  Reading from \<^verbatim>\<open>null\<close> or \<^verbatim>\<open>undefined\<close> throws; the callers below treat
  that case before they call \<open>get_prop\<close>.
\<close>

fun get_prop :: "js \<Rightarrow> string \<Rightarrow> js" where
  "get_prop (JObj kvs) k = (case map_of kvs k of Some v \<Rightarrow> v | None \<Rightarrow> JUndefined)"
| "get_prop v k = JUndefined"

text \<open>Joining strings with a separator, as \<^verbatim>\<open>Array.prototype.join\<close> does.\<close>

fun join :: "string \<Rightarrow> string list \<Rightarrow> string" where
  "join sep [] = []"
| "join sep [x] = x"
| "join sep (x # y # ys) = x @ sep @ join sep (y # ys)"

text \<open>
  Conversion to a string inside a template literal. An array joins its elements with
  commas, printing \<^verbatim>\<open>null\<close> and \<^verbatim>\<open>undefined\<close> elements as empty. A parsed
  object prints as \<^verbatim>\<open>[object Object]\<close>, unless it has a property of its own called
  \<^verbatim>\<open>toString\<close>: that value is not callable, the inherited \<^verbatim>\<open>valueOf\<close> returns
  the object itself, and the conversion throws a TypeError; so does the conversion of an
  array with such an object among its elements. \<open>prints\<close> says that the conversion
  does not throw, \<open>render\<close> is the string it gives then (how a number prints is left
  to the host, \<open>numstr\<close>), and \<open>to_str\<close> is the conversion, \<open>None\<close> when it throws.
\<close>

fun prints :: "js \<Rightarrow> bool" where
  "prints (JArr xs) = list_all prints xs"
| "prints (JObj kvs) = (map_of kvs ''toString'' = None)"
| "prints v = True"

fun render :: "(real \<Rightarrow> string) \<Rightarrow> js \<Rightarrow> string" where
  "render numstr JUndefined = ''undefined''"
| "render numstr JNull = ''null''"
| "render numstr (JBool b) = (if b then ''true'' else ''false'')"
| "render numstr (JNum r) = numstr r"
| "render numstr (JStr s) = s"
| "render numstr (JArr xs) =
     join '','' (map (\<lambda>x. if x = JNull \<or> x = JUndefined then [] else render numstr x) xs)"
| "render numstr (JObj kvs) = ''[object Object]''"

definition to_str :: "(real \<Rightarrow> string) \<Rightarrow> js \<Rightarrow> string option" where
  "to_str numstr v = (if prints v then Some (render numstr v) else None)"

text \<open>
  A non-negative integer below \<open>10^21\<close> (a clock reading, an array length, an index)
  prints in decimal.
\<close>

definition digit_char :: "nat \<Rightarrow> char" where
  "digit_char d = char_of (48 + d)"

function dec :: "nat \<Rightarrow> string" where
  "dec n = (if n < 10 then [digit_char n] else dec (n div 10) @ [digit_char (n mod 10)])"
  by pat_completeness auto
termination
  by (relation "measure (\<lambda>n. n)") auto

declare dec.simps [simp del]

definition nl :: string where
  "nl = [CHR 0x0A]"

section \<open>Numbers are doubles\<close>

text \<open>
  A number of the program is an IEEE double, and every sum and product is rounded to
  the nearest double, ties to even. \<open>fl\<close> is that rounding on the reals: \<open>expo\<close> is
  the binary exponent of the binade (not below that of the subnormal numbers), \<open>ulp\<close>
  the spacing of the doubles there and \<open>rne\<close> rounding to the nearest integer, ties
  to even. Beyond the largest double the machine gives an infinity where \<open>fl\<close> goes
  on rounding to 53 bits; the comparisons below come out the same.
\<close>

definition rne :: "real \<Rightarrow> int" where
  "rne y =
     (let f = \<lfloor>y\<rfloor>
      in if y - of_int f < 1 / 2 then f
         else if 1 / 2 < y - of_int f then f + 1
         else if even f then f else f + 1)"

definition expo :: "real \<Rightarrow> int" where
  "expo x = max \<lfloor>log 2 \<bar>x\<bar>\<rfloor> (- 1022)"

definition ulp :: "real \<Rightarrow> real" where
  "ulp x = 2 powr (of_int (expo x) - 52)"

definition fl :: "real \<Rightarrow> real" where
  "fl x = (if x = 0 then 0 else ulp x * of_int (rne (x / ulp x)))"

text \<open>
  \<^verbatim>\<open>Date.now()\<close> returns a time value: a whole number of milliseconds, at most
  8.64e15, which a double holds exactly. The model counts the clock in natural numbers;
  \<open>time_value\<close> is the number the program sees.
\<close>

definition time_value :: "nat \<Rightarrow> real" where
  "time_value n = real (min n 8640000000000000)"

section \<open>The prompt store (store.ts, types.ts)\<close>

text \<open>
  \<^verbatim>\<open>interface PlaygroundPrompt { id; prompt; url; pathname; timestamp }\<close>. The field
  \<^verbatim>\<open>id\<close> is called \<open>pid\<close> here. The interface declares \<^verbatim>\<open>url\<close> and
  \<^verbatim>\<open>pathname\<close> as strings, but the HTTP handler stores whatever truthy value the
  request carried, so they are JavaScript values.
\<close>

record PlaygroundPrompt =
  pid :: string
  prompt :: string
  url :: js
  pathname :: js
  timestamp :: nat

text \<open>The argument of \<^verbatim>\<open>add\<close>: a prompt without \<^verbatim>\<open>id\<close> and \<^verbatim>\<open>timestamp\<close>.\<close>

record PromptInput =
  in_prompt :: string
  in_url :: js
  in_pathname :: js

record PromptStore =
  prompts :: "PlaygroundPrompt list"

text \<open>
  \<^verbatim>\<open>id: `p_${Date.now()}_${Math.random().toString(36).slice(2, 8)}`\<close>. The two clock
  readings of \<^verbatim>\<open>add\<close> and the random suffix come from the host: \<open>t_id\<close> is the
  reading used in the id, \<open>rnd\<close> the suffix, \<open>t_ts\<close> the reading stored as timestamp.
\<close>

definition mk_id :: "nat \<Rightarrow> string \<Rightarrow> string" where
  "mk_id t_id rnd = ''p_'' @ dec t_id @ ''_'' @ rnd"

definition add :: "nat \<Rightarrow> string \<Rightarrow> nat \<Rightarrow> PromptInput \<Rightarrow> PromptStore
    \<Rightarrow> PlaygroundPrompt \<times> PromptStore" where
  "add t_id rnd t_ts inp s =
     (let entry = \<lparr>pid = mk_id t_id rnd, prompt = in_prompt inp, url = in_url inp,
                    pathname = in_pathname inp, timestamp = t_ts\<rparr>
      in (entry, s\<lparr>prompts := prompts s @ [entry]\<rparr>))"

definition getOldest :: "PromptStore \<Rightarrow> PlaygroundPrompt option" where
  "getOldest s = (case prompts s of [] \<Rightarrow> None | p # ps \<Rightarrow> Some p)"

definition getAll :: "PromptStore \<Rightarrow> PlaygroundPrompt list" where
  "getAll s = prompts s"

definition count :: "PromptStore \<Rightarrow> nat" where
  "count s = length (prompts s)"

definition clear :: "PromptStore \<Rightarrow> PromptStore" where
  "clear s = s\<lparr>prompts := []\<rparr>"

definition removeOldest :: "PromptStore \<Rightarrow> PlaygroundPrompt option \<times> PromptStore" where
  "removeOldest s =
     (case prompts s of [] \<Rightarrow> (None, s) | p # ps \<Rightarrow> (Some p, s\<lparr>prompts := ps\<rparr>))"

text \<open>
  A run of the store: a sequence of calls, each \<^verbatim>\<open>add\<close> with the host values it
  reads. \<open>run_ops\<close> returns the final store with the records \<^verbatim>\<open>removeOldest\<close>
  returned, in the order of the calls (a call on the empty store returns
  \<^verbatim>\<open>undefined\<close> and adds nothing to that list); \<open>added\<close> lists the records the
  \<^verbatim>\<open>add\<close> calls of the run create, in call order.
\<close>

datatype store_op =
    Add nat string nat PromptInput
  | RemoveOldest
  | GetOldest
  | GetAll
  | Count
  | Clear

fun store_step :: "store_op \<Rightarrow> PromptStore \<Rightarrow> PlaygroundPrompt list \<times> PromptStore" where
  "store_step (Add t_id rnd t_ts inp) s = ([], snd (add t_id rnd t_ts inp s))"
| "store_step RemoveOldest s =
     (case removeOldest s of (None, s') \<Rightarrow> ([], s') | (Some p, s') \<Rightarrow> ([p], s'))"
| "store_step GetOldest s = ([], s)"
| "store_step GetAll s = ([], s)"
| "store_step Count s = ([], s)"
| "store_step Clear s = ([], clear s)"

fun run_ops :: "store_op list \<Rightarrow> PromptStore \<Rightarrow> PlaygroundPrompt list \<times> PromptStore" where
  "run_ops [] s = ([], s)"
| "run_ops (op # ops) s =
     (let (out, s') = store_step op s; (outs, s'') = run_ops ops s' in (out @ outs, s''))"

fun created :: "store_op \<Rightarrow> PromptStore \<Rightarrow> PlaygroundPrompt list" where
  "created (Add t_id rnd t_ts inp) s = [fst (add t_id rnd t_ts inp s)]"
| "created op s = []"

fun added :: "store_op list \<Rightarrow> PromptStore \<Rightarrow> PlaygroundPrompt list" where
  "added [] s = []"
| "added (op # ops) s = created op s @ added ops (snd (store_step op s))"

fun is_clear :: "store_op \<Rightarrow> bool" where
  "is_clear Clear = True"
| "is_clear op = False"

text \<open>The clock reading and the random suffix that each \<^verbatim>\<open>add\<close> of a run puts in its id.\<close>

fun seed :: "store_op \<Rightarrow> (nat \<times> string) list" where
  "seed (Add t_id rnd t_ts inp) = [(t_id, rnd)]"
| "seed op = []"

definition seeds :: "store_op list \<Rightarrow> (nat \<times> string) list" where
  "seeds ops = concat (map seed ops)"

section \<open>Server-sent events (server.ts, burst.ts)\<close>

text \<open>
  \<^verbatim>\<open>broadcastEvent(event, data)\<close> writes one message to every response object in
  \<^verbatim>\<open>sseClients\<close>. A message is kept as the event name with the fields of its data
  object; a client is a connection with the messages written to it so far.
\<close>

datatype sse_event = SseEvent string "(string \<times> js) list"

record sse_client =
  conn :: nat
  written :: "sse_event list"

definition broadcastEvent :: "string \<Rightarrow> (string \<times> js) list \<Rightarrow> sse_client list \<Rightarrow> sse_client list" where
  "broadcastEvent event data clients =
     map (\<lambda>c. c\<lparr>written := written c @ [SseEvent event data]\<rparr>) clients"

text \<open>A call of \<^verbatim>\<open>spawn(command, args, {shell, ...})\<close>.\<close>

record spawn_call =
  command :: string
  args :: "string list"
  shell :: bool

text \<open>
  The state of the process: the store, the set of event-stream clients (in insertion
  order) and the child processes spawned so far. Console output is not modelled.
\<close>

record world =
  store :: PromptStore
  sseClients :: "sse_client list"
  spawned :: "spawn_call list"

definition publish :: "string \<Rightarrow> (string \<times> js) list \<Rightarrow> world \<Rightarrow> world" where
  "publish event data w = w\<lparr>sseClients := broadcastEvent event data (sseClients w)\<rparr>"

section \<open>The HTTP endpoint\<close>

datatype http_response = HttpResponse nat "(string \<times> js) list"

fun str_of :: "js \<Rightarrow> string" where
  "str_of (JStr s) = s"
| "str_of v = []"

fun num_of :: "js \<Rightarrow> real" where
  "num_of (JNum r) = r"
| "num_of v = 0"

text \<open>
  The \<^verbatim>\<open>end\<close> callback of \<^verbatim>\<open>POST /prompt\<close> in server.ts. \<open>parsed\<close> is the
  result of \<^verbatim>\<open>JSON.parse(body)\<close>, \<open>None\<close> when it throws. Destructuring
  \<^verbatim>\<open>null\<close> throws as well, and the same \<^verbatim>\<open>catch\<close> answers. With
  \<^verbatim>\<open>verbose\<close> set, the handler builds a log line from \<^verbatim>\<open>pagePath\<close> after
  \<^verbatim>\<open>store.add\<close>; when that conversion throws, the \<^verbatim>\<open>catch\<close> answers with the
  record already stored and nothing published. Console output itself is not modelled.
\<close>

definition server_post_prompt :: "bool \<Rightarrow> js option \<Rightarrow> nat \<Rightarrow> string \<Rightarrow> nat \<Rightarrow> world
    \<Rightarrow> http_response \<times> world" where
  "server_post_prompt verbose parsed t_id rnd t_ts w =
     (case parsed of
        None \<Rightarrow> (HttpResponse 400 [(''error'', JStr ''Invalid JSON'')], w)
      | Some payload \<Rightarrow>
          if payload = JNull \<or> payload = JUndefined
          then (HttpResponse 400 [(''error'', JStr ''Invalid JSON'')], w)
          else
            let prompt_v = get_prop payload ''prompt'';
                pageUrl = get_prop payload ''url'';
                pagePath = get_prop payload ''pathname''
            in if \<not> truthy prompt_v \<or> \<not> is_string prompt_v
               then (HttpResponse 400 [(''error'', JStr ''prompt is required'')], w)
               else
                 let (entry, st) = add t_id rnd t_ts
                       \<lparr>in_prompt = str_of prompt_v, in_url = js_or pageUrl (JStr []),
                        in_pathname = js_or pagePath (JStr ''/'')\<rparr> (store w);
                     w1 = w\<lparr>store := st\<rparr>
                 in if verbose \<and> \<not> prints pagePath
                    then (HttpResponse 400 [(''error'', JStr ''Invalid JSON'')], w1)
                    else
                      let w2 = publish ''status''
                                 [(''status'', JStr ''received''), (''id'', JStr (pid entry))] w1
                      in (HttpResponse 200
                            [(''success'', JBool True), (''id'', JStr (pid entry))], w2))"

text \<open>
  The same callback in burst.ts. It builds its log line from \<^verbatim>\<open>pagePath\<close> on every
  request.
\<close>

definition burst_post_prompt :: "js option \<Rightarrow> nat \<Rightarrow> string \<Rightarrow> nat \<Rightarrow> world
    \<Rightarrow> http_response \<times> world" where
  "burst_post_prompt parsed t_id rnd t_ts w =
     (case parsed of
        None \<Rightarrow> (HttpResponse 400 [(''error'', JStr ''Invalid JSON'')], w)
      | Some payload \<Rightarrow>
          if payload = JNull \<or> payload = JUndefined
          then (HttpResponse 400 [(''error'', JStr ''Invalid JSON'')], w)
          else
            let prompt_v = get_prop payload ''prompt'';
                pageUrl = get_prop payload ''url'';
                pagePath = get_prop payload ''pathname''
            in if \<not> truthy prompt_v \<or> \<not> is_string prompt_v
               then (HttpResponse 400 [(''error'', JStr ''prompt is required'')], w)
               else
                 let (entry, st) = add t_id rnd t_ts
                       \<lparr>in_prompt = str_of prompt_v, in_url = js_or pageUrl (JStr []),
                        in_pathname = js_or pagePath (JStr ''/'')\<rparr> (store w);
                     w1 = w\<lparr>store := st\<rparr>
                 in if \<not> prints pagePath
                    then (HttpResponse 400 [(''error'', JStr ''Invalid JSON'')], w1)
                    else (HttpResponse 200 [(''success'', JBool True)], w1))"

text \<open>
  A request body that parses and carries a non-empty string in its \<^verbatim>\<open>prompt\<close> field.
\<close>

definition has_prompt :: "js option \<Rightarrow> bool" where
  "has_prompt parsed =
     (case parsed of
        None \<Rightarrow> False
      | Some payload \<Rightarrow> (case get_prop payload ''prompt'' of JStr s \<Rightarrow> s \<noteq> [] | _ \<Rightarrow> False))"

text \<open>
  \<^verbatim>\<open>GET /events\<close> writes the \<^verbatim>\<open>connected\<close> message to the new response object and
  adds it to the set; the request's \<^verbatim>\<open>close\<close> deletes it. Every request has a
  response object of its own, named by \<open>cid\<close>; \<open>mode\<close> holds the extra field that
  burst.ts sends.
\<close>

definition open_events :: "(string \<times> js) list \<Rightarrow> nat \<Rightarrow> world \<Rightarrow> world" where
  "open_events mode cid w =
     w\<lparr>sseClients := sseClients w @
        [\<lparr>conn = cid, written = [SseEvent ''connected'' ((''status'', JStr ''ok'') # mode)]\<rparr>]\<rparr>"

definition close_events :: "nat \<Rightarrow> world \<Rightarrow> world" where
  "close_events cid w = w\<lparr>sseClients := filter (\<lambda>c. conn c \<noteq> cid) (sseClients w)\<rparr>"

text \<open>
  What the HTTP side can do while a tool call or the batch loop is suspended in an
  \<^verbatim>\<open>await\<close>.
\<close>

datatype http_event =
    PostPrompt "js option" nat string nat
  | OpenEvents nat
  | CloseEvents nat

fun server_http :: "bool \<Rightarrow> http_event \<Rightarrow> world \<Rightarrow> world" where
  "server_http verbose (PostPrompt parsed t_id rnd t_ts) w =
     snd (server_post_prompt verbose parsed t_id rnd t_ts w)"
| "server_http verbose (OpenEvents cid) w = open_events [] cid w"
| "server_http verbose (CloseEvents cid) w = close_events cid w"

fun burst_http :: "http_event \<Rightarrow> world \<Rightarrow> world" where
  "burst_http (PostPrompt parsed t_id rnd t_ts) w = snd (burst_post_prompt parsed t_id rnd t_ts w)"
| "burst_http (OpenEvents cid) w = open_events [(''mode'', JStr ''burst'')] cid w"
| "burst_http (CloseEvents cid) w = close_events cid w"

definition server_https :: "bool \<Rightarrow> http_event list \<Rightarrow> world \<Rightarrow> world" where
  "server_https verbose evs w = foldl (\<lambda>w e. server_http verbose e w) w evs"

definition burst_https :: "http_event list \<Rightarrow> world \<Rightarrow> world" where
  "burst_https evs w = foldl (\<lambda>w e. burst_http e w) w evs"

section \<open>The tools of the MCP server (server.ts)\<close>

text \<open>
  What the host decides when a value is printed: how a number prints in a template
  literal, and \<^verbatim>\<open>new Date(t).toLocaleTimeString()\<close>.
\<close>

record host =
  number_string :: "real \<Rightarrow> string"
  locale_time :: "nat \<Rightarrow> string"

text \<open>A host for the worked examples below.\<close>

definition example_host :: host where
  "example_host = \<lparr>number_string = (\<lambda>r. ''0''), locale_time = (\<lambda>t. ''12:00:00'')\<rparr>"

text \<open>
  The text of a prompt with its provenance; \<open>None\<close> when the conversion of the source
  throws.
\<close>

definition format_prompt :: "host \<Rightarrow> PlaygroundPrompt \<Rightarrow> string option" where
  "format_prompt h p =
     (case to_str (number_string h) (js_or (url p) (pathname p)) of
        None \<Rightarrow> None
      | Some source \<Rightarrow>
          Some (''# Playground Prompt'' @ nl @ nl @
                ''**Source:** '' @ source @ nl @
                ''**Received:** '' @ locale_time h (timestamp p) @ nl @ nl @
                ''---'' @ nl @ nl @ prompt p))"

definition no_pending_text :: string where
  "no_pending_text = ''No pending prompts from playgrounds.''"

text \<open>The bytes between \<^verbatim>\<open>out\<close> and \<^verbatim>\<open>no\<close> are those of the literal in server.ts.\<close>

definition watch_timeout_text :: string where
  "watch_timeout_text =
     ''Watch timed out ''
     @ [CHR 0xC3, CHR 0xA2, CHR 0xE2, CHR 0x82, CHR 0xAC, CHR 0xE2, CHR 0x80, CHR 0x9D]
     @ '' no prompts received. The user may not have clicked ''
     @ [CHR 0x27] @ ''Send to Claude'' @ [CHR 0x27] @ '' yet.''"

text \<open>
  What a tool call comes to: the text it returns, or the TypeError that a template
  literal threw. \<open>prompt_result\<close> is the end of both tools that hand out a prompt: with
  \<^verbatim>\<open>verbose\<close> set, a log line built from the record's pathname, then the returned
  text; either conversion can throw.
\<close>

datatype tool_result = Text string | TypeError

definition prompt_result :: "bool \<Rightarrow> host \<Rightarrow> PlaygroundPrompt \<Rightarrow> tool_result" where
  "prompt_result verbose h p =
     (if verbose \<and> \<not> prints (pathname p) then TypeError
      else (case format_prompt h p of None \<Rightarrow> TypeError | Some t \<Rightarrow> Text t))"

definition playground_get_prompt :: "bool \<Rightarrow> host \<Rightarrow> world \<Rightarrow> tool_result \<times> world" where
  "playground_get_prompt verbose h w =
     (case getOldest (store w) of
        None \<Rightarrow> (Text no_pending_text, w)
      | Some p \<Rightarrow>
          (let w1 = publish ''status'' [(''status'', JStr ''processing'')] w
           in (prompt_result verbose h p, w1)))"

definition playground_clear :: "world \<Rightarrow> tool_result \<times> world" where
  "playground_clear w =
     (let n = count (store w);
          w1 = w\<lparr>store := clear (store w)\<rparr>;
          w2 = publish ''status'' [(''status'', JStr ''done'')] w1
      in (Text (if n > 0 then ''Cleared '' @ dec n @ '' prompt(s).'' else ''No prompts to clear.''),
          w2))"

text \<open>
  \<^verbatim>\<open>Math.min(typeof toolArgs?.timeout_seconds === "number" ? toolArgs.timeout_seconds : 300, 600)\<close>
\<close>

definition watch_timeout :: "js \<Rightarrow> real" where
  "watch_timeout toolArgs =
     min (if is_number (get_prop toolArgs ''timeout_seconds'')
          then num_of (get_prop toolArgs ''timeout_seconds'') else 300) 600"

text \<open>\<^verbatim>\<open>Date.now() + timeoutSec * 1000\<close>, with \<open>now0\<close> the reading of the clock.\<close>

definition deadline_of :: "nat \<Rightarrow> real \<Rightarrow> real" where
  "deadline_of now0 timeoutSec = fl (time_value now0 + fl (timeoutSec * 1000))"

text \<open>
  The body of \<^verbatim>\<open>if (prompt) { ... }\<close> in the loop, for the oldest record \<open>p\<close> in
  state \<open>w\<close>: \<^verbatim>\<open>processing\<close> is published, the record is removed, and the call
  comes to the formatted record, or to the TypeError of a conversion that throws.
\<close>

definition take_oldest :: "bool \<Rightarrow> host \<Rightarrow> PlaygroundPrompt \<Rightarrow> world \<Rightarrow> tool_result \<times> world" where
  "take_oldest verbose h p w =
     (let w1 = publish ''status'' [(''status'', JStr ''processing'')] w;
          w2 = w1\<lparr>store := snd (removeOldest (store w1))\<rparr>
      in (prompt_result verbose h p, w2))"

text \<open>
  One pass through the head of the polling loop, from the test of the clock to the
  \<^verbatim>\<open>return\<close>, the throw or the \<^verbatim>\<open>await\<close>: nothing else runs in between. \<open>now\<close>
  is the clock reading of the test. The result is what the call comes to, or \<open>None\<close>
  when the call suspends for a second.
\<close>

definition watch_poll :: "bool \<Rightarrow> host \<Rightarrow> real \<Rightarrow> nat \<Rightarrow> world \<Rightarrow> tool_result option \<times> world" where
  "watch_poll verbose h deadline now w =
     (if time_value now < deadline
      then (case getOldest (store w) of
              Some p \<Rightarrow> (case take_oldest verbose h p w of (r, w') \<Rightarrow> (Some r, w'))
            | None \<Rightarrow> (None, w))
      else (Some (Text watch_timeout_text), w))"

text \<open>
  The loop of one call. The clock never runs backwards: each reading is the one before
  plus an advance. A tick is one \<^verbatim>\<open>await\<close> of the loop: the HTTP events handled while
  the call sleeps, and the advance of the clock over the sleep. The ticks are the fuel
  of the model: \<open>None\<close> says the call is still waiting when they are used up.
\<close>

fun watch_loop :: "bool \<Rightarrow> host \<Rightarrow> real \<Rightarrow> nat \<Rightarrow> (http_event list \<times> nat) list \<Rightarrow> world
    \<Rightarrow> (tool_result \<times> world) option" where
  "watch_loop verbose h deadline now [] w =
     (case watch_poll verbose h deadline now w of
        (Some r, w') \<Rightarrow> Some (r, w')
      | (None, w') \<Rightarrow> None)"
| "watch_loop verbose h deadline now (tick # ticks) w =
     (case watch_poll verbose h deadline now w of
        (Some r, w') \<Rightarrow> Some (r, w')
      | (None, w') \<Rightarrow>
          watch_loop verbose h deadline (now + snd tick) ticks (server_https verbose (fst tick) w'))"

text \<open>
  \<open>now0\<close> is the reading that fixes the deadline, \<open>d0\<close> the advance of the clock until
  the first test of the loop.
\<close>

definition playground_watch :: "bool \<Rightarrow> host \<Rightarrow> js \<Rightarrow> nat \<Rightarrow> nat \<Rightarrow> (http_event list \<times> nat) list
    \<Rightarrow> world \<Rightarrow> (tool_result \<times> world) option" where
  "playground_watch verbose h toolArgs now0 d0 ticks w =
     watch_loop verbose h (deadline_of now0 (watch_timeout toolArgs)) (now0 + d0) ticks w"

text \<open>The clock and the world at the \<open>k\<close>-th test of the loop, if the loop gets there.\<close>

definition clock_at :: "nat \<Rightarrow> (http_event list \<times> nat) list \<Rightarrow> nat \<Rightarrow> nat" where
  "clock_at now ticks k = now + sum_list (map snd (take k ticks))"

definition world_at :: "bool \<Rightarrow> world \<Rightarrow> (http_event list \<times> nat) list \<Rightarrow> nat \<Rightarrow> world" where
  "world_at verbose w ticks k =
     foldl (\<lambda>w tick. server_https verbose (fst tick) w) w (take k ticks)"

text \<open>
  The call in words, to be compared with the loop. The tests of the loop are numbered
  from 0. A test decides the call when the clock has reached the deadline or the queue
  is not empty. The call is decided by its first deciding test: before the deadline the
  call takes the oldest record of that moment, at or after the deadline it times out in
  the state of that moment. With no deciding test among those the ticks allow, the call
  is still waiting.
\<close>

definition decisive :: "bool \<Rightarrow> real \<Rightarrow> nat \<Rightarrow> (http_event list \<times> nat) list \<Rightarrow> world \<Rightarrow> nat
    \<Rightarrow> bool" where
  "decisive verbose deadline now ticks w k =
     (\<not> time_value (clock_at now ticks k) < deadline
      \<or> prompts (store (world_at verbose w ticks k)) \<noteq> [])"

datatype decision = StillWaiting | TimesOut world | Takes PlaygroundPrompt world

definition watch_decision :: "bool \<Rightarrow> real \<Rightarrow> nat \<Rightarrow> (http_event list \<times> nat) list \<Rightarrow> world
    \<Rightarrow> decision" where
  "watch_decision verbose deadline now ticks w =
     (case find (decisive verbose deadline now ticks w) [0..<Suc (length ticks)] of
        None \<Rightarrow> StillWaiting
      | Some k \<Rightarrow>
          (let wk = world_at verbose w ticks k
           in if time_value (clock_at now ticks k) < deadline
              then (case prompts (store wk) of p # ps \<Rightarrow> Takes p wk | [] \<Rightarrow> StillWaiting)
              else TimesOut wk))"

section \<open>Several calls of watch at once\<close>

text \<open>
  Node runs one callback at a time, so calls interleave only at their \<^verbatim>\<open>await\<close>s.
  A schedule lists what runs next: an HTTP event, an advance of the clock, a new call of
  \<^verbatim>\<open>playground_watch\<close> (which runs to its first \<^verbatim>\<open>await\<close> or \<^verbatim>\<open>return\<close>), or a
  suspended call resumed for one more pass of its loop. A schedule may resume a call at
  any moment, also before its second of sleep is over: what holds of every schedule holds
  of those the timers allow.
\<close>

datatype watcher = Waiting real | Finished tool_result

datatype sched_event =
    Http http_event
  | Advance nat
  | Start js
  | Resume nat

record sched_state =
  clock :: nat
  watchers :: "watcher list"
  the_world :: world

definition resume :: "bool \<Rightarrow> host \<Rightarrow> nat \<Rightarrow> sched_state \<Rightarrow> sched_state" where
  "resume verbose h i s =
     (if i < length (watchers s)
      then (case watchers s ! i of
              Waiting deadline \<Rightarrow>
                (case watch_poll verbose h deadline (clock s) (the_world s) of
                   (Some r, w') \<Rightarrow> s\<lparr>watchers := (watchers s)[i := Finished r], the_world := w'\<rparr>
                 | (None, w') \<Rightarrow> s\<lparr>the_world := w'\<rparr>)
            | Finished r \<Rightarrow> s)
      else s)"

fun sched_step :: "bool \<Rightarrow> host \<Rightarrow> sched_event \<Rightarrow> sched_state \<Rightarrow> sched_state" where
  "sched_step verbose h (Http e) s = s\<lparr>the_world := server_http verbose e (the_world s)\<rparr>"
| "sched_step verbose h (Advance d) s = s\<lparr>clock := clock s + d\<rparr>"
| "sched_step verbose h (Start toolArgs) s =
     resume verbose h (length (watchers s))
       (s\<lparr>watchers := watchers s @ [Waiting (deadline_of (clock s) (watch_timeout toolArgs))]\<rparr>)"
| "sched_step verbose h (Resume i) s = resume verbose h i s"

definition run_sched :: "bool \<Rightarrow> host \<Rightarrow> sched_event list \<Rightarrow> sched_state \<Rightarrow> sched_state" where
  "run_sched verbose h evs s = foldl (\<lambda>s e. sched_step verbose h e s) s evs"

fun quiet :: "sched_event \<Rightarrow> bool" where
  "quiet (Advance d) = True"
| "quiet (Resume i) = True"
| "quiet e = False"

fun is_waiting :: "watcher \<Rightarrow> bool" where
  "is_waiting (Waiting d) = True"
| "is_waiting (Finished r) = False"

text \<open>The calls that have returned the text \<open>t\<close>, and the deadlines of a list of calls.\<close>

definition delivered :: "string \<Rightarrow> watcher list \<Rightarrow> nat" where
  "delivered t ws = length (filter (\<lambda>x. x = Finished (Text t)) ws)"

fun past_deadline :: "nat \<Rightarrow> watcher \<Rightarrow> bool" where
  "past_deadline now (Waiting d) = (\<not> time_value now < d)"
| "past_deadline now (Finished r) = True"

text \<open>
  The state of a schedule that starts with one record queued and takes no new prompt,
  where \<open>t\<close> is the text of that record: the record is in the queue or with exactly one
  finished call, and every finished call returned either the record or the timeout text.
\<close>

definition one_record :: "string \<Rightarrow> PlaygroundPrompt \<Rightarrow> sched_state \<Rightarrow> bool" where
  "one_record t r s =
     (delivered t (watchers s) + length (prompts (store (the_world s))) = 1
      \<and> (prompts (store (the_world s)) = [r] \<or> prompts (store (the_world s)) = [])
      \<and> list_all (\<lambda>x. is_waiting x \<or> x = Finished (Text watch_timeout_text)
                       \<or> x = Finished (Text t)) (watchers s))"

section \<open>Burst mode (burst.ts)\<close>

text \<open>
  \<^verbatim>\<open>findClaudePath\<close>: the first truthy candidate. \<open>env_path\<close> is
  \<^verbatim>\<open>process.env.CLAUDE_PATH\<close>, \<open>None\<close> when unset; the list is never empty after the
  filter.
\<close>

definition findClaudePath :: "string option \<Rightarrow> string" where
  "findClaudePath env_path =
     hd (filter (\<lambda>c. c \<noteq> [])
          [case env_path of None \<Rightarrow> [] | Some s \<Rightarrow> s,
           ''/opt/homebrew/bin/claude'', ''/usr/local/bin/claude'', ''claude''])"

text \<open>
  What the child process reports first: \<^verbatim>\<open>close\<close> with its exit code (\<^verbatim>\<open>null\<close> when
  a signal ended it), or \<^verbatim>\<open>error\<close> when it could not be started. The call of
  \<^verbatim>\<open>spawn\<close> itself is taken to return the child object.
\<close>

datatype child_event = Close "int option" | Error string

definition runClaudeCode :: "string option \<Rightarrow> string \<Rightarrow> child_event \<Rightarrow> spawn_call \<times> bool" where
  "runClaudeCode env_path prompt_text ev =
     (let claudePath = findClaudePath env_path;
          call = \<lparr>command = claudePath,
                  args = [''--print'', ''--continue'', ''--permission-mode'', ''bypassPermissions'',
                          prompt_text],
                  shell = (claudePath = ''claude'')\<rparr>
      in (call, (case ev of Close code \<Rightarrow> code = Some 0 | Error msg \<Rightarrow> False)))"

text \<open>
  The section of one record in the combined document, the document of a batch, and the
  argument for the child; \<open>None\<close> when the conversion of a pathname throws.
\<close>

definition prompt_section :: "host \<Rightarrow> nat \<Rightarrow> PlaygroundPrompt \<Rightarrow> string option" where
  "prompt_section h i p =
     (case to_str (number_string h) (pathname p) of
        None \<Rightarrow> None
      | Some path \<Rightarrow>
          Some (''## Prompt '' @ dec (i + 1) @ '' (from '' @ path @ '')'' @ nl @ nl @ prompt p))"

definition combined :: "host \<Rightarrow> PlaygroundPrompt list \<Rightarrow> string option" where
  "combined h ps =
     map_option (join (nl @ nl @ ''---'' @ nl @ nl))
       (those (map (\<lambda>(i, p). prompt_section h i p) (enumerate 0 ps)))"

definition fullPrompt :: "host \<Rightarrow> PlaygroundPrompt list \<Rightarrow> string option" where
  "fullPrompt h ps =
     map_option
       (\<lambda>c. ''You have received '' @ dec (length ps)
            @ '' prompt(s) from playground files. Process each one:'' @ nl @ nl @ c)
       (combined h ps)"

text \<open>
  What happens around one pass of \<^verbatim>\<open>burstLoop\<close>: the HTTP events during each of the
  ten one-second sleeps of the window (by the value of the counter \<^verbatim>\<open>i\<close>), what the
  child reports, the HTTP events while the child runs, and those during the two-second
  sleep that ends the pass.
\<close>

record burst_env =
  window_events :: "nat \<Rightarrow> http_event list"
  child :: child_event
  run_events :: "http_event list"
  sleep_events :: "http_event list"

text \<open>
  An environment for the worked examples below: no request arrives around the pass and
  the child exits with status 0.
\<close>

definition idle_env :: burst_env where
  "idle_env = \<lparr>window_events = (\<lambda>i. []), child = Close (Some 0), run_events = [],
               sleep_events = []\<rparr>"

fun countdown :: "nat \<Rightarrow> (nat \<Rightarrow> http_event list) \<Rightarrow> world \<Rightarrow> world" where
  "countdown 0 evs w = w"
| "countdown (Suc i) evs w = countdown i evs (burst_https (evs (Suc i)) w)"

text \<open>From the \<^verbatim>\<open>collecting\<close> status to the end of the window.\<close>

definition collect_window :: "burst_env \<Rightarrow> world \<Rightarrow> world" where
  "collect_window env w =
     countdown 10 (window_events env) (publish ''status'' [(''status'', JStr ''collecting'')] w)"

text \<open>
  From \<^verbatim>\<open>store.getAll()\<close> to the \<^verbatim>\<open>ready\<close> status. \<open>Inr\<close> carries the state
  reached, with \<^verbatim>\<open>result.success\<close> when a batch ran. \<open>Inl\<close> is the TypeError of a
  pathname that does not print, thrown while the document is built, with the state at
  the throw: nothing catches it in the loop, \<^verbatim>\<open>startBurstMode\<close> rejects and cli.ts
  exits with status 1.
\<close>

definition process_batch :: "host \<Rightarrow> string option \<Rightarrow> burst_env \<Rightarrow> world
    \<Rightarrow> world + world \<times> bool option" where
  "process_batch h env_path env w =
     (let ps = getAll (store w)
      in if length ps > 0
         then
           let w1 = publish ''status'' [(''status'', JStr ''processing'')] w
           in (case fullPrompt h ps of
                 None \<Rightarrow> Inl w1
               | Some doc \<Rightarrow>
                   let (call, success) = runClaudeCode env_path doc (child env);
                       w2 = burst_https (run_events env) (w1\<lparr>spawned := spawned w1 @ [call]\<rparr>);
                       w3 = w2\<lparr>store := clear (store w2)\<rparr>;
                       w4 = publish ''status'' [(''status'', JStr ''done'')] w3;
                       w5 = publish ''status'' [(''status'', JStr ''ready'')] w4
                   in Inr (w5, Some success))
         else Inr (w, None))"

text \<open>One pass of the \<^verbatim>\<open>while (true)\<close> loop, up to the end of its last sleep.\<close>

definition burst_pass :: "host \<Rightarrow> string option \<Rightarrow> burst_env \<Rightarrow> world
    \<Rightarrow> world + world \<times> bool option" where
  "burst_pass h env_path env w =
     (if count (store w) > 0
      then (case process_batch h env_path env (collect_window env w) of
              Inl w' \<Rightarrow> Inl w'
            | Inr (w', res) \<Rightarrow> Inr (burst_https (sleep_events env) w', res))
      else Inr (burst_https (sleep_events env) w, None))"

text \<open>
  The loop returns only by a throw. The model runs it for as many passes as it is given
  environments, or up to the pass that throws, and returns the state reached, the
  outcome of every pass made, and whether the loop is still running.
\<close>

fun burstLoop :: "host \<Rightarrow> string option \<Rightarrow> burst_env list \<Rightarrow> world
    \<Rightarrow> world \<times> bool option list \<times> bool" where
  "burstLoop h env_path [] w = (w, [], True)"
| "burstLoop h env_path (env # envs) w =
     (case burst_pass h env_path env w of
        Inl w' \<Rightarrow> (w', [], False)
      | Inr (w', res) \<Rightarrow>
          (let (w'', rs, running) = burstLoop h env_path envs w' in (w'', res # rs, running)))"

section \<open>Start-up (server.ts, burst.ts, cli.ts)\<close>

text \<open>
  What \<^verbatim>\<open>server.listen\<close> leads to: the \<^verbatim>\<open>listening\<close> callback, or an \<^verbatim>\<open>error\<close>
  event with its code. A promise is a sum: \<open>Inr\<close> when it resolves, \<open>Inl\<close> with the
  error when it rejects.
\<close>

datatype listen_outcome = Listening | ListenError string

definition server_createHttpServer :: "listen_outcome \<Rightarrow> string + unit" where
  "server_createHttpServer out =
     (case out of
        Listening \<Rightarrow> Inr ()
      | ListenError code \<Rightarrow> if code = ''EADDRINUSE'' then Inr () else Inl code)"

definition burst_createHttpServer :: "nat \<Rightarrow> listen_outcome \<Rightarrow> string + unit" where
  "burst_createHttpServer port out =
     (case out of
        Listening \<Rightarrow> Inr ()
      | ListenError code \<Rightarrow>
          if code = ''EADDRINUSE'' then Inl (''Port '' @ dec port @ '' in use'') else Inl code)"

text \<open>\<open>connect_error\<close> is the error of \<^verbatim>\<open>mcpServer.connect(transport)\<close>, if it rejects.\<close>

definition startServer :: "listen_outcome \<Rightarrow> string option \<Rightarrow> string + unit" where
  "startServer out connect_error =
     (case server_createHttpServer out of
        Inl e \<Rightarrow> Inl e
      | Inr u \<Rightarrow> (case connect_error of Some e \<Rightarrow> Inl e | None \<Rightarrow> Inr ()))"

text \<open>
  The process as cli.ts leaves it: exited with a status, or running, with or without a
  bound HTTP listener. \<^verbatim>\<open>startBurstMode\<close> never resolves, since \<^verbatim>\<open>burstLoop\<close> does
  not return: it rejects or the process runs on.
\<close>

datatype process_state = Exited nat | Running bool

definition cli :: "bool \<Rightarrow> bool \<Rightarrow> nat \<Rightarrow> listen_outcome \<Rightarrow> string option \<Rightarrow> process_state" where
  "cli helpRequested burstMode port out connect_error =
     (if helpRequested then Exited 0
      else if burstMode
      then (case burst_createHttpServer port out of
              Inl e \<Rightarrow> Exited 1
            | Inr u \<Rightarrow> Running True)
      else (case startServer out connect_error of
              Inl e \<Rightarrow> Exited 1
            | Inr u \<Rightarrow> Running (out = Listening)))"

section \<open>Decimal numerals and ids\<close>

lemma dec_value: "foldl (\<lambda>a c. 10 * a + (of_char c - 48)) (0::nat) (dec n) = n"
proof (induction n rule: dec.induct)
  case (1 n)
  show ?case
  proof (cases "n < 10")
    case True
    then show ?thesis by (subst dec.simps) (simp add: digit_char_def)
  next
    case False
    have "n mod 10 < 10" by simp
    then have "(48 + n mod 10) mod 256 = 48 + n mod 10" by simp
    with False 1 show ?thesis by (subst dec.simps) (simp add: digit_char_def)
  qed
qed

lemma dec_inj: "dec a = dec b \<Longrightarrow> a = b"
proof -
  assume "dec a = dec b"
  then have "foldl (\<lambda>a c. 10 * a + (of_char c - 48)) (0::nat) (dec a)
      = foldl (\<lambda>a c. 10 * a + (of_char c - 48)) (0::nat) (dec b)"
    by (rule arg_cong)
  then show "a = b" by (simp only: dec_value)
qed

lemma digit_char_not_underscore: "d < 10 \<Longrightarrow> digit_char d \<noteq> CHR ''_''"
proof
  assume d: "d < 10" and "digit_char d = CHR ''_''"
  then have "of_char (digit_char d) = (of_char (CHR ''_'') :: nat)" by simp
  with d show False by (simp add: digit_char_def)
qed

lemma dec_no_underscore: "CHR ''_'' \<notin> set (dec n)"
proof (induction n rule: dec.induct)
  case (1 n)
  show ?case
  proof (cases "n < 10")
    case True
    then have "digit_char n \<noteq> CHR ''_''" by (rule digit_char_not_underscore)
    with True show ?thesis by (subst dec.simps) auto
  next
    case False
    have "digit_char (n mod 10) \<noteq> CHR ''_''" by (rule digit_char_not_underscore) simp
    with False 1 show ?thesis by (subst dec.simps) auto
  qed
qed

lemma split_at_first:
  assumes "x \<notin> set xs" "x \<notin> set xs'" "xs @ x # ys = xs' @ x # ys'"
  shows "xs = xs' \<and> ys = ys'"
proof -
  have "takeWhile (\<lambda>c. c \<noteq> x) (xs @ x # ys) = xs"
    using assms(1) by (induction xs) auto
  moreover have "takeWhile (\<lambda>c. c \<noteq> x) (xs' @ x # ys') = xs'"
    using assms(2) by (induction xs') auto
  ultimately have "xs = xs'" using assms(3) by simp
  with assms(3) show ?thesis by simp
qed

lemma mk_id_inj: "mk_id a r = mk_id b r' \<longleftrightarrow> a = b \<and> r = r'"
proof
  assume "mk_id a r = mk_id b r'"
  then have "dec a @ CHR ''_'' # r = dec b @ CHR ''_'' # r'" by (simp add: mk_id_def)
  from split_at_first [OF dec_no_underscore dec_no_underscore this]
  show "a = b \<and> r = r'" by (auto dest: dec_inj)
qed simp

section \<open>Runs of the store\<close>

lemma run_ops_unfold:
  "run_ops (op # ops) s =
     (fst (store_step op s) @ fst (run_ops ops (snd (store_step op s))),
      snd (run_ops ops (snd (store_step op s))))"
  by (simp add: case_prod_unfold Let_def)

lemma store_step_subseq:
  "subseq (fst (store_step op s) @ prompts (snd (store_step op s))) (prompts s @ created op s)"
  by (cases op) (auto simp: add_def removeOldest_def clear_def Let_def split: list.splits)

lemma store_step_keeps:
  "\<not> is_clear op \<Longrightarrow>
   fst (store_step op s) @ prompts (snd (store_step op s)) = prompts s @ created op s"
  by (cases op) (auto simp: add_def removeOldest_def Let_def split: list.splits)

lemma run_ops_subseq:
  "subseq (fst (run_ops ops s) @ prompts (snd (run_ops ops s))) (prompts s @ added ops s)"
proof (induction ops arbitrary: s)
  case Nil
  then show ?case by simp
next
  case (Cons op ops)
  let ?s' = "snd (store_step op s)"
  let ?out = "fst (store_step op s)"
  have "subseq (?out @ fst (run_ops ops ?s') @ prompts (snd (run_ops ops ?s')))
               (?out @ prompts ?s' @ added ops ?s')"
    using Cons.IH [of ?s'] by (simp add: subseq_append')
  moreover have "subseq ((?out @ prompts ?s') @ added ops ?s')
               ((prompts s @ created op s) @ added ops ?s')"
    by (rule list_emb_append_mono [OF store_step_subseq]) simp
  ultimately have "subseq (?out @ fst (run_ops ops ?s') @ prompts (snd (run_ops ops ?s')))
               ((prompts s @ created op s) @ added ops ?s')"
    using subseq_order.trans by fastforce
  then show ?case by (simp only: run_ops_unfold fst_conv snd_conv added.simps append_assoc)
qed

lemma run_ops_keeps:
  "list_all (\<lambda>op. \<not> is_clear op) ops \<Longrightarrow>
   fst (run_ops ops s) @ prompts (snd (run_ops ops s)) = prompts s @ added ops s"
proof (induction ops arbitrary: s)
  case Nil
  then show ?case by simp
next
  case (Cons op ops)
  let ?s' = "snd (store_step op s)"
  have "fst (run_ops (op # ops) s) @ prompts (snd (run_ops (op # ops) s))
      = fst (store_step op s) @ fst (run_ops ops ?s') @ prompts (snd (run_ops ops ?s'))"
    by (simp only: run_ops_unfold fst_conv snd_conv append_assoc)
  also have "\<dots> = fst (store_step op s) @ prompts ?s' @ added ops ?s'"
    using Cons.IH [of ?s'] Cons.prems by simp
  also have "\<dots> = (prompts s @ created op s) @ added ops ?s'"
    using store_step_keeps [of op s] Cons.prems by simp
  finally show ?case by simp
qed

lemma added_pids: "map pid (added ops s) = map (\<lambda>(t, r). mk_id t r) (seeds ops)"
proof (induction ops arbitrary: s)
  case Nil
  then show ?case by (simp add: seeds_def)
next
  case (Cons op ops)
  have "map pid (created op s) = map (\<lambda>(t, r). mk_id t r) (seed op)"
    by (cases op) (simp_all add: add_def Let_def)
  with Cons.IH [of "snd (store_step op s)"] show ?case by (simp add: seeds_def)
qed

lemma mk_id_inj_on: "inj_on (\<lambda>(t, r). mk_id t r) A"
  by (auto simp: inj_on_def mk_id_inj)

section \<open>The queue is first-in, first-out\<close>

text \<open>
  C1. The queue is FIFO. For every run of store calls from any store \<open>s\<close>, the records
  that \<^verbatim>\<open>removeOldest\<close> returned, followed by the records still stored, are a
  subsequence of the records stored at the start followed by the records the run added,
  in that order: no call reorders entries. When the run holds no \<^verbatim>\<open>clear\<close> (calls of
  \<^verbatim>\<open>add\<close> interleaved with \<^verbatim>\<open>removeOldest\<close> and the reading calls), the two lists
  are equal, so the records come back in exactly the order they went in. \<^verbatim>\<open>add\<close>
  appends at the back and \<^verbatim>\<open>removeOldest\<close> takes from the front.
\<close>

theorem store_fifo:
  "subseq (fst (run_ops ops s) @ prompts (snd (run_ops ops s))) (prompts s @ added ops s)
   \<and> (list_all (\<lambda>op. \<not> is_clear op) ops \<longrightarrow>
        fst (run_ops ops s) @ prompts (snd (run_ops ops s)) = prompts s @ added ops s)
   \<and> prompts (snd (add t_id rnd t_ts inp s)) = prompts s @ [fst (add t_id rnd t_ts inp s)]
   \<and> removeOldest s =
        (case prompts s of [] \<Rightarrow> (None, s) | p # ps \<Rightarrow> (Some p, s\<lparr>prompts := ps\<rparr>))"
proof (intro conjI impI)
  show "subseq (fst (run_ops ops s) @ prompts (snd (run_ops ops s))) (prompts s @ added ops s)"
    by (rule run_ops_subseq)
  show "fst (run_ops ops s) @ prompts (snd (run_ops ops s)) = prompts s @ added ops s"
    if "list_all (\<lambda>op. \<not> is_clear op) ops"
    using that by (rule run_ops_keeps)
  show "prompts (snd (add t_id rnd t_ts inp s)) = prompts s @ [fst (add t_id rnd t_ts inp s)]"
    by (simp add: add_def Let_def)
  show "removeOldest s =
        (case prompts s of [] \<Rightarrow> (None, s) | p # ps \<Rightarrow> (Some p, s\<lparr>prompts := ps\<rparr>))"
    by (simp add: removeOldest_def)
qed

text \<open>
  Three prompts go in, with a removal after the second and three after the third (the
  last on the empty store): they come out in the order one, two, three.
\<close>

theorem store_fifo_witness:
  "list_all (\<lambda>op. \<not> is_clear op)
     [Add 1 ''a'' 1 \<lparr>in_prompt = ''one'', in_url = JStr [], in_pathname = JStr ''/''\<rparr>,
      Add 2 ''b'' 2 \<lparr>in_prompt = ''two'', in_url = JStr [], in_pathname = JStr ''/''\<rparr>,
      RemoveOldest,
      Add 3 ''c'' 3 \<lparr>in_prompt = ''three'', in_url = JStr [], in_pathname = JStr ''/''\<rparr>,
      RemoveOldest, RemoveOldest, RemoveOldest]
   \<and> fst (run_ops
     [Add 1 ''a'' 1 \<lparr>in_prompt = ''one'', in_url = JStr [], in_pathname = JStr ''/''\<rparr>,
      Add 2 ''b'' 2 \<lparr>in_prompt = ''two'', in_url = JStr [], in_pathname = JStr ''/''\<rparr>,
      RemoveOldest,
      Add 3 ''c'' 3 \<lparr>in_prompt = ''three'', in_url = JStr [], in_pathname = JStr ''/''\<rparr>,
      RemoveOldest, RemoveOldest, RemoveOldest] \<lparr>prompts = []\<rparr>)
     = [\<lparr>pid = mk_id 1 ''a'', prompt = ''one'', url = JStr [], pathname = JStr ''/'', timestamp = 1\<rparr>,
        \<lparr>pid = mk_id 2 ''b'', prompt = ''two'', url = JStr [], pathname = JStr ''/'', timestamp = 2\<rparr>,
        \<lparr>pid = mk_id 3 ''c'', prompt = ''three'', url = JStr [], pathname = JStr ''/'', timestamp = 3\<rparr>]"
  using store_fifo [of
     "[Add 1 ''a'' 1 \<lparr>in_prompt = ''one'', in_url = JStr [], in_pathname = JStr ''/''\<rparr>,
      Add 2 ''b'' 2 \<lparr>in_prompt = ''two'', in_url = JStr [], in_pathname = JStr ''/''\<rparr>,
      RemoveOldest,
      Add 3 ''c'' 3 \<lparr>in_prompt = ''three'', in_url = JStr [], in_pathname = JStr ''/''\<rparr>,
      RemoveOldest, RemoveOldest, RemoveOldest]" "\<lparr>prompts = []\<rparr>"]
  by (simp add: add_def removeOldest_def Let_def)

section \<open>Ids\<close>

text \<open>
  C9, as the code has it. The id that \<^verbatim>\<open>add\<close> assigns is \<^verbatim>\<open>p_\<close>, the clock reading
  in decimal, \<^verbatim>\<open>_\<close> and the random suffix. Two ids are equal exactly when both the
  reading and the suffix are equal, so the ids of the records a run creates are pairwise
  distinct whenever no two of its \<^verbatim>\<open>add\<close> calls draw the same reading with the same
  suffix; nothing in the code excludes such a draw. No call changes a stored record:
  every record in the store after a run is one that was stored at the start or one that
  an \<^verbatim>\<open>add\<close> of the run created, id included.
\<close>

theorem ids_differ_with_seeds:
  "pid (fst (add t_id rnd t_ts inp s)) = mk_id t_id rnd
   \<and> (mk_id t_id rnd = mk_id t_id' rnd' \<longleftrightarrow> t_id = t_id' \<and> rnd = rnd')
   \<and> (distinct (seeds ops) \<longrightarrow> distinct (map pid (added ops s)))
   \<and> set (prompts (snd (run_ops ops s))) \<subseteq> set (prompts s) \<union> set (added ops s)"
proof (intro conjI impI)
  show "pid (fst (add t_id rnd t_ts inp s)) = mk_id t_id rnd"
    by (simp add: add_def Let_def)
  show "(mk_id t_id rnd = mk_id t_id' rnd') = (t_id = t_id' \<and> rnd = rnd')"
    by (rule mk_id_inj)
  show "distinct (map pid (added ops s))" if "distinct (seeds ops)"
    using that by (simp add: added_pids distinct_map mk_id_inj_on)
  have "set (fst (run_ops ops s) @ prompts (snd (run_ops ops s))) \<subseteq> set (prompts s @ added ops s)"
    using run_ops_subseq [of ops s] by (auto elim: list_emb_set)
  then show "set (prompts (snd (run_ops ops s))) \<subseteq> set (prompts s) \<union> set (added ops s)"
    by auto
qed

text \<open>
  Three calls, two in the same millisecond with different suffixes and two with the same
  suffix in different milliseconds: three different ids.
\<close>

theorem ids_differ_with_seeds_witness:
  "distinct (seeds
     [Add 7 ''k3x9q1'' 7 \<lparr>in_prompt = ''one'', in_url = JStr [], in_pathname = JStr ''/''\<rparr>,
      Add 7 ''zz81ab'' 7 \<lparr>in_prompt = ''two'', in_url = JStr [], in_pathname = JStr ''/''\<rparr>,
      Add 8 ''k3x9q1'' 8 \<lparr>in_prompt = ''three'', in_url = JStr [], in_pathname = JStr ''/''\<rparr>])
   \<and> distinct (map pid (added
     [Add 7 ''k3x9q1'' 7 \<lparr>in_prompt = ''one'', in_url = JStr [], in_pathname = JStr ''/''\<rparr>,
      Add 7 ''zz81ab'' 7 \<lparr>in_prompt = ''two'', in_url = JStr [], in_pathname = JStr ''/''\<rparr>,
      Add 8 ''k3x9q1'' 8 \<lparr>in_prompt = ''three'', in_url = JStr [], in_pathname = JStr ''/''\<rparr>]
     \<lparr>prompts = []\<rparr>))"
  using ids_differ_with_seeds [of 0 "[]" 0
     "\<lparr>in_prompt = ''one'', in_url = JStr [], in_pathname = JStr ''/''\<rparr>"
     "\<lparr>prompts = []\<rparr>" 0 "[]"
     "[Add 7 ''k3x9q1'' 7 \<lparr>in_prompt = ''one'', in_url = JStr [], in_pathname = JStr ''/''\<rparr>,
      Add 7 ''zz81ab'' 7 \<lparr>in_prompt = ''two'', in_url = JStr [], in_pathname = JStr ''/''\<rparr>,
      Add 8 ''k3x9q1'' 8 \<lparr>in_prompt = ''three'', in_url = JStr [], in_pathname = JStr ''/''\<rparr>]"]
  by (simp add: seeds_def)

text \<open>
  Two prompts added in the same millisecond with the same random suffix get the same id.
\<close>

theorem same_seed_same_id_counterexample:
  "\<not> distinct (map pid (added
     [Add 1700000000000 ''k3x9q1'' 1700000000000
        \<lparr>in_prompt = ''one'', in_url = JStr [], in_pathname = JStr ''/''\<rparr>,
      Add 1700000000000 ''k3x9q1'' 1700000000000
        \<lparr>in_prompt = ''two'', in_url = JStr [], in_pathname = JStr ''/''\<rparr>]
     \<lparr>prompts = []\<rparr>))"
  by (simp add: add_def Let_def)

section \<open>Rounding to doubles\<close>

lemma rne_of_int: "rne (of_int k) = k"
  by (simp add: rne_def)

lemma rne_bounds: "of_int (rne y) \<le> y + 1 / 2" "y - 1 / 2 \<le> of_int (rne y)"
  by (auto simp: rne_def Let_def) linarith+

lemma rne_le_int: "y \<le> of_int m \<Longrightarrow> rne y \<le> m"
proof -
  assume a: "y \<le> of_int m"
  have f: "\<lfloor>y\<rfloor> \<le> m" using a by (simp add: floor_le_iff)
  show ?thesis
  proof (cases "\<lfloor>y\<rfloor> = m")
    case True
    then have "y = of_int m" using a by (metis floor_less_cancel not_le order.not_eq_order_implies_strict floor_of_int of_int_floor_le order_antisym)
    then show ?thesis by (simp add: rne_of_int)
  next
    case False
    with f have "\<lfloor>y\<rfloor> + 1 \<le> m" by simp
    then show ?thesis by (auto simp: rne_def Let_def)
  qed
qed

lemma int_le_rne: "of_int m \<le> y \<Longrightarrow> m \<le> rne y"
proof -
  assume "of_int m \<le> y"
  then have "m \<le> \<lfloor>y\<rfloor>" by (simp add: le_floor_iff)
  then show ?thesis by (auto simp: rne_def Let_def)
qed

lemma rne_mono: "a \<le> b \<Longrightarrow> rne a \<le> rne b"
proof -
  assume ab: "a \<le> b"
  have fa: "\<lfloor>a\<rfloor> \<le> \<lfloor>b\<rfloor>" using ab by (rule floor_mono)
  show ?thesis
  proof (cases "\<lfloor>a\<rfloor> = \<lfloor>b\<rfloor>")
    case True
    with ab show ?thesis by (auto simp: rne_def Let_def)
  next
    case False
    with fa have "\<lfloor>a\<rfloor> + 1 \<le> \<lfloor>b\<rfloor>" by simp
    moreover have "rne a \<le> \<lfloor>a\<rfloor> + 1" by (auto simp: rne_def Let_def)
    moreover have "\<lfloor>b\<rfloor> \<le> rne b" by (auto simp: rne_def Let_def)
    ultimately show ?thesis by linarith
  qed
qed

lemma ulp_pos: "0 < ulp x"
  by (simp add: ulp_def)

lemma ulp_times: "ulp x * 2 powr c = 2 powr (of_int (expo x) - 52 + c)"
  by (simp only: ulp_def powr_add)

lemma div_ulp: "2 powr c / ulp x = 2 powr (c - (of_int (expo x) - 52))"
  by (simp only: ulp_def powr_diff)

lemma two_powr_53: "(2::real) powr 53 = of_int (2 ^ 53)"
  by simp

lemma two_powr_52: "(2::real) powr 52 = of_int (2 ^ 52)"
  by simp

lemma abs_less_top:
  assumes "x \<noteq> 0"
  shows "\<bar>x\<bar> < 2 powr (of_int (expo x) + 1)"
proof -
  have "log 2 \<bar>x\<bar> < of_int \<lfloor>log 2 \<bar>x\<bar>\<rfloor> + 1" by linarith
  also have "\<dots> \<le> of_int (expo x) + 1" by (simp add: expo_def)
  finally have "2 powr (log 2 \<bar>x\<bar>) < 2 powr (of_int (expo x) + 1)" by simp
  with assms show ?thesis by simp
qed

lemma normal_bottom:
  assumes "x \<noteq> 0" "- 1022 < expo x"
  shows "2 powr (of_int (expo x)) \<le> \<bar>x\<bar>"
proof -
  from assms(2) have "expo x = \<lfloor>log 2 \<bar>x\<bar>\<rfloor>" by (simp add: expo_def max_def split: if_splits)
  then have "of_int (expo x) \<le> log 2 \<bar>x\<bar>" by simp
  then have "2 powr (of_int (expo x)) \<le> 2 powr (log 2 \<bar>x\<bar>)" by simp
  with assms(1) show ?thesis by simp
qed

lemma expo_mono:
  assumes "0 < x" "x \<le> y"
  shows "expo x \<le> expo y"
proof -
  from assms have "log 2 \<bar>x\<bar> \<le> log 2 \<bar>y\<bar>" by simp
  then have "\<lfloor>log 2 \<bar>x\<bar>\<rfloor> \<le> \<lfloor>log 2 \<bar>y\<bar>\<rfloor>" by (rule floor_mono)
  then show ?thesis by (simp add: expo_def)
qed

lemma fl_nonneg: "0 \<le> x \<Longrightarrow> 0 \<le> fl x"
proof -
  assume "0 \<le> x"
  then have "of_int 0 \<le> x / ulp x" using ulp_pos [of x] by simp
  then have "0 \<le> rne (x / ulp x)" by (rule int_le_rne)
  then show ?thesis using ulp_pos [of x] by (simp add: fl_def)
qed

lemma fl_nonpos: "x \<le> 0 \<Longrightarrow> fl x \<le> 0"
proof -
  assume "x \<le> 0"
  then have "x / ulp x \<le> of_int 0" using ulp_pos [of x] by (simp add: divide_le_0_iff)
  then have "rne (x / ulp x) \<le> 0" by (rule rne_le_int)
  then show ?thesis using ulp_pos [of x] by (simp add: fl_def mult_le_0_iff)
qed

lemma fl_mono_pos:
  assumes "0 < x" "x \<le> y"
  shows "fl x \<le> fl y"
proof -
  from assms have y: "0 < y" by simp
  have e: "expo x \<le> expo y" using assms by (rule expo_mono)
  show ?thesis
  proof (cases "expo x = expo y")
    case True
    then have u: "ulp x = ulp y" by (simp add: ulp_def)
    have "x / ulp y \<le> y / ulp y" using assms(2) ulp_pos [of y] by (simp add: divide_right_mono)
    then have "rne (x / ulp y) \<le> rne (y / ulp y)" by (rule rne_mono)
    then have "ulp y * of_int (rne (x / ulp y)) \<le> ulp y * of_int (rne (y / ulp y))"
      using ulp_pos [of y] by simp
    with assms(1) y u show ?thesis by (simp add: fl_def)
  next
    case False
    with e have lt: "expo x + 1 \<le> expo y" by simp
    have top: "x < 2 powr (of_int (expo x) + 1)" using abs_less_top [of x] assms(1) by simp
    have "x / ulp x \<le> 2 powr (of_int (expo x) + 1) / ulp x"
      using top ulp_pos [of x] by (simp add: divide_right_mono)
    also have "2 powr (of_int (expo x) + 1) / ulp x = 2 powr 53"
      unfolding div_ulp by simp
    finally have "x / ulp x \<le> of_int (2 ^ 53)" by (simp only: two_powr_53)
    then have "rne (x / ulp x) \<le> 2 ^ 53" by (rule rne_le_int)
    then have "ulp x * of_int (rne (x / ulp x)) \<le> ulp x * of_int (2 ^ 53)"
      using ulp_pos [of x] by (simp only: mult_le_cancel_left_pos of_int_le_iff)
    also have "ulp x * of_int (2 ^ 53) = ulp x * 2 powr 53"
      by (simp only: two_powr_53)
    also have "\<dots> = 2 powr (of_int (expo x) + 1)"
      unfolding ulp_times by (simp add: add.commute)
    also have "\<dots> \<le> 2 powr (of_int (expo y))" using lt by simp
    finally have a: "fl x \<le> 2 powr (of_int (expo y))" using assms(1) by (simp add: fl_def)
    have ny: "- 1022 < expo y" using lt by (simp add: expo_def)
    have bot: "2 powr (of_int (expo y)) \<le> y" using normal_bottom [of y] y ny by simp
    have "2 powr (of_int (expo y)) / ulp y \<le> y / ulp y"
      using bot ulp_pos [of y] by (simp add: divide_right_mono)
    moreover have "2 powr (of_int (expo y)) / ulp y = 2 powr 52"
      unfolding div_ulp by simp
    ultimately have "of_int (2 ^ 52) \<le> y / ulp y" by (simp only: two_powr_52)
    then have "2 ^ 52 \<le> rne (y / ulp y)" by (rule int_le_rne)
    then have "ulp y * of_int (2 ^ 52) \<le> ulp y * of_int (rne (y / ulp y))"
      using ulp_pos [of y] by (simp only: mult_le_cancel_left_pos of_int_le_iff)
    moreover have "ulp y * of_int (2 ^ 52) = ulp y * 2 powr 52"
      by (simp only: two_powr_52)
    moreover have "ulp y * 2 powr 52 = 2 powr (of_int (expo y))"
      unfolding ulp_times by simp
    ultimately have b: "2 powr (of_int (expo y)) \<le> fl y" using y by (simp add: fl_def)
    from a b show ?thesis by simp
  qed
qed

lemma fl_mono_right_nonneg:
  assumes "x \<le> y" "0 \<le> y"
  shows "fl x \<le> fl y"
proof (cases "0 < x")
  case True
  then show ?thesis using assms(1) by (rule fl_mono_pos)
next
  case False
  then have "fl x \<le> 0" by (simp add: fl_nonpos)
  also have "0 \<le> fl y" using assms(2) by (rule fl_nonneg)
  finally show ?thesis .
qed

lemma fl_of_int:
  assumes "\<bar>n\<bar> < 2 ^ 53"
  shows "fl (of_int n) = of_int n"
proof (cases "n = 0")
  case True
  then show ?thesis by (simp add: fl_def)
next
  case False
  let ?x = "of_int n :: real"
  have x1: "1 \<le> \<bar>?x\<bar>" using False by (simp flip: of_int_abs)
  then have "0 \<le> log 2 \<bar>?x\<bar>" by simp
  then have e0: "0 \<le> expo ?x" by (simp add: expo_def)
  have "(of_int \<bar>n\<bar> :: real) < of_int (2 ^ 53)" using assms by (simp only: of_int_less_iff)
  then have "\<bar>?x\<bar> < 2 ^ 53" by simp
  then have "\<bar>?x\<bar> < 2 powr 53" by simp
  then have "log 2 \<bar>?x\<bar> < 53" using x1 by (simp add: log_less_iff)
  then have "\<lfloor>log 2 \<bar>?x\<bar>\<rfloor> < 53" by (simp add: floor_less_iff)
  then have e52: "expo ?x \<le> 52" by (simp add: expo_def)
  define k where "k = nat (52 - expo ?x)"
  have ke: "of_int (expo ?x) - 52 = - real k" using e52 by (simp add: k_def)
  have u: "ulp ?x = 1 / 2 ^ k"
    by (simp add: ulp_def ke powr_minus powr_realpow divide_simps)
  have "?x / ulp ?x = of_int (n * 2 ^ k)" by (simp add: u)
  then have "rne (?x / ulp ?x) = n * 2 ^ k" by (simp only: rne_of_int)
  then show ?thesis using False by (simp add: fl_def u)
qed

lemma time_value_exact: "fl (time_value n) = time_value n"
proof -
  have "int (min n 8640000000000000) < 2 ^ 53" by simp
  then have "fl (of_int (int (min n 8640000000000000))) = of_int (int (min n 8640000000000000))"
    by (intro fl_of_int) simp
  then show ?thesis by (simp add: time_value_def)
qed

lemma time_value_mono: "a \<le> b \<Longrightarrow> time_value a \<le> time_value b"
  by (simp add: time_value_def min_le_iff_disj)

lemma time_value_nonneg: "0 \<le> time_value n"
  by (simp add: time_value_def)

lemma deadline_of_nonpos:
  assumes "t \<le> 0"
  shows "deadline_of now0 t \<le> time_value (now0 + d0)"
proof -
  have "t * 1000 \<le> 0" using assms by (simp add: mult_le_0_iff)
  then have "fl (t * 1000) \<le> 0" by (rule fl_nonpos)
  then have "time_value now0 + fl (t * 1000) \<le> time_value now0" by simp
  then have "fl (time_value now0 + fl (t * 1000)) \<le> fl (time_value now0)"
    using time_value_nonneg by (rule fl_mono_right_nonneg)
  also have "\<dots> = time_value now0" by (rule time_value_exact)
  also have "\<dots> \<le> time_value (now0 + d0)" by (rule time_value_mono) simp
  finally show ?thesis by (simp add: deadline_of_def)
qed

text \<open>Deadlines of the worked examples: whole numbers of milliseconds are exact.\<close>

lemma fl_numeral: "(numeral k :: int) < 2 ^ 53 \<Longrightarrow> fl (numeral k) = numeral k"
  using fl_of_int [of "numeral k"] by simp

lemma time_value_small: "n \<le> 8640000000000000 \<Longrightarrow> time_value n = real n"
  by (simp add: time_value_def)

section \<open>Texts of the tools\<close>

lemma to_str_None: "to_str numstr v = None \<longleftrightarrow> \<not> prints v"
  by (simp add: to_str_def)

lemma format_prompt_None: "format_prompt h p = None \<longleftrightarrow> \<not> prints (js_or (url p) (pathname p))"
  by (simp add: format_prompt_def to_str_def)

lemma format_ne_no_pending: "format_prompt h p = Some t \<Longrightarrow> t \<noteq> no_pending_text"
  by (auto simp: format_prompt_def no_pending_text_def split: option.splits)

lemma format_ne_timeout: "format_prompt h p = Some t \<Longrightarrow> t \<noteq> watch_timeout_text"
  by (auto simp: format_prompt_def watch_timeout_text_def split: option.splits)

lemma prompt_result_text:
  "\<not> verbose \<or> prints (pathname p) \<Longrightarrow> format_prompt h p = Some t \<Longrightarrow>
   prompt_result verbose h p = Text t"
  by (auto simp: prompt_result_def)

section \<open>Get the oldest prompt\<close>

text \<open>
  Every call of \<^verbatim>\<open>playground_get_prompt\<close> leaves the store as it was. On the empty
  store it returns the text that says no prompt is pending and changes nothing more; on
  a non-empty store it writes one \<^verbatim>\<open>processing\<close> status to every subscriber and
  comes to what \<open>prompt_result\<close> makes of the oldest record: for a record whose url
  and pathname print, its text with its provenance.
\<close>

lemma get_prompt_keeps_store:
  "store (snd (playground_get_prompt verbose h w)) = store w"
  by (simp add: playground_get_prompt_def getOldest_def publish_def Let_def split: list.splits)

lemma get_prompt_result:
  "(case prompts (store w) of
      [] \<Rightarrow> playground_get_prompt verbose h w = (Text no_pending_text, w)
    | p # ps \<Rightarrow>
        fst (playground_get_prompt verbose h w) = prompt_result verbose h p
        \<and> sseClients (snd (playground_get_prompt verbose h w)) =
            map (\<lambda>c. c\<lparr>written := written c @ [SseEvent ''status'' [(''status'', JStr ''processing'')]]\<rparr>)
              (sseClients w))"
  by (simp add: playground_get_prompt_def getOldest_def publish_def broadcastEvent_def Let_def
      split: list.splits)

lemma get_prompt_peeks:
  assumes "prompts (store w) = p # ps" "\<not> verbose \<or> prints (pathname p)"
    "format_prompt h p = Some t"
  shows "playground_get_prompt verbose h w =
     (Text t, w\<lparr>sseClients :=
        map (\<lambda>c. c\<lparr>written := written c @ [SseEvent ''status'' [(''status'', JStr ''processing'')]]\<rparr>)
          (sseClients w)\<rparr>)"
  using assms
  by (simp add: playground_get_prompt_def getOldest_def publish_def broadcastEvent_def Let_def
      prompt_result_text)

text \<open>
  C7 fails on a record whose source does not print. The handler of server.ts accepts the
  body \<^verbatim>\<open>{"prompt":"x","pathname":{"toString":1}}\<close>: the record is stored with that
  pathname, every subscriber gets \<^verbatim>\<open>received\<close> and the answer is 200 with the id.
  The next call of \<^verbatim>\<open>playground_get_prompt\<close> publishes \<^verbatim>\<open>processing\<close> and then
  throws a TypeError while it formats the record: the call returns neither the record
  with its provenance nor the text that says no prompt is pending. The record stays at
  the head of the queue, so the next call does the same.
\<close>

theorem get_prompt_throws_on_unprintable_source:
  "server_post_prompt False
     (Some (JObj [(''prompt'', JStr ''x''), (''pathname'', JObj [(''toString'', JNum 1)])]))
     5 ''abc'' 5
     \<lparr>store = \<lparr>prompts = []\<rparr>, sseClients = [\<lparr>conn = 1, written = []\<rparr>], spawned = []\<rparr>
   = (HttpResponse 200 [(''success'', JBool True), (''id'', JStr (mk_id 5 ''abc''))],
      \<lparr>store = \<lparr>prompts = [\<lparr>pid = mk_id 5 ''abc'', prompt = ''x'', url = JStr [],
                            pathname = JObj [(''toString'', JNum 1)], timestamp = 5\<rparr>]\<rparr>,
       sseClients = [\<lparr>conn = 1, written =
          [SseEvent ''status'' [(''status'', JStr ''received''), (''id'', JStr (mk_id 5 ''abc''))]]\<rparr>],
       spawned = []\<rparr>)
   \<and> playground_get_prompt False example_host
      \<lparr>store = \<lparr>prompts = [\<lparr>pid = mk_id 5 ''abc'', prompt = ''x'', url = JStr [],
                            pathname = JObj [(''toString'', JNum 1)], timestamp = 5\<rparr>]\<rparr>,
       sseClients = [\<lparr>conn = 1, written =
          [SseEvent ''status'' [(''status'', JStr ''received''), (''id'', JStr (mk_id 5 ''abc''))]]\<rparr>],
       spawned = []\<rparr>
   = (TypeError,
      \<lparr>store = \<lparr>prompts = [\<lparr>pid = mk_id 5 ''abc'', prompt = ''x'', url = JStr [],
                            pathname = JObj [(''toString'', JNum 1)], timestamp = 5\<rparr>]\<rparr>,
       sseClients = [\<lparr>conn = 1, written =
          [SseEvent ''status'' [(''status'', JStr ''received''), (''id'', JStr (mk_id 5 ''abc''))],
           SseEvent ''status'' [(''status'', JStr ''processing'')]]\<rparr>],
       spawned = []\<rparr>)"
  by (simp add: server_post_prompt_def playground_get_prompt_def prompt_result_def
      format_prompt_def to_str_def getOldest_def Let_def add_def js_or_def publish_def
      broadcastEvent_def)

text \<open>What the call comes to on that queue, read off the result.\<close>

theorem get_prompt_throws_on_unprintable_source_witness:
  "fst (playground_get_prompt False example_host
      \<lparr>store = \<lparr>prompts = [\<lparr>pid = mk_id 5 ''abc'', prompt = ''x'', url = JStr [],
                            pathname = JObj [(''toString'', JNum 1)], timestamp = 5\<rparr>]\<rparr>,
       sseClients = [\<lparr>conn = 1, written =
          [SseEvent ''status'' [(''status'', JStr ''received''), (''id'', JStr (mk_id 5 ''abc''))]]\<rparr>],
       spawned = []\<rparr>) = TypeError"
  using get_prompt_throws_on_unprintable_source by simp

section \<open>Submitting a prompt\<close>

text \<open>
  The handler of server.ts: a body that does not parse or has no non-empty string
  \<^verbatim>\<open>prompt\<close> gets a 400 with an error and the state is untouched; otherwise, unless
  the log line of \<^verbatim>\<open>--verbose\<close> throws, the record is appended, every subscriber gets
  a \<^verbatim>\<open>received\<close> status with the new id, and the answer is 200 with \<^verbatim>\<open>success\<close>
  and the id. The handler of burst.ts rejects in the same way.
\<close>

lemma server_post_prompt_rejects:
  "\<not> has_prompt parsed \<Longrightarrow>
   (\<exists>msg. server_post_prompt verbose parsed t_id rnd t_ts w
      = (HttpResponse 400 [(''error'', JStr msg)], w))"
  by (auto simp: server_post_prompt_def has_prompt_def Let_def split: option.splits js.splits)

lemma burst_post_prompt_rejects:
  "\<not> has_prompt parsed \<Longrightarrow>
   (\<exists>msg. burst_post_prompt parsed t_id rnd t_ts w = (HttpResponse 400 [(''error'', JStr msg)], w))"
  by (auto simp: burst_post_prompt_def has_prompt_def Let_def split: option.splits js.splits)

lemma server_post_prompt_accepts:
  assumes "has_prompt (Some payload)"
    and "\<not> verbose \<or> prints (get_prop payload ''pathname'')"
    and "entry = \<lparr>pid = mk_id t_id rnd, prompt = str_of (get_prop payload ''prompt''),
                   url = js_or (get_prop payload ''url'') (JStr []),
                   pathname = js_or (get_prop payload ''pathname'') (JStr ''/''),
                   timestamp = t_ts\<rparr>"
  shows "server_post_prompt verbose (Some payload) t_id rnd t_ts w =
        (HttpResponse 200 [(''success'', JBool True), (''id'', JStr (pid entry))],
         w\<lparr>store := (store w)\<lparr>prompts := prompts (store w) @ [entry]\<rparr>,
           sseClients := map (\<lambda>c. c\<lparr>written := written c @
              [SseEvent ''status'' [(''status'', JStr ''received''), (''id'', JStr (pid entry))]]\<rparr>)
              (sseClients w)\<rparr>)"
  using assms
  by (auto simp: server_post_prompt_def has_prompt_def Let_def add_def publish_def
      broadcastEvent_def split: js.splits)

lemma burst_post_prompt_accepts:
  assumes "has_prompt (Some payload)"
    and "prints (get_prop payload ''pathname'')"
    and "entry = \<lparr>pid = mk_id t_id rnd, prompt = str_of (get_prop payload ''prompt''),
                   url = js_or (get_prop payload ''url'') (JStr []),
                   pathname = js_or (get_prop payload ''pathname'') (JStr ''/''),
                   timestamp = t_ts\<rparr>"
  shows "burst_post_prompt (Some payload) t_id rnd t_ts w =
        (HttpResponse 200 [(''success'', JBool True)],
         w\<lparr>store := (store w)\<lparr>prompts := prompts (store w) @ [entry]\<rparr>\<rparr>)"
  using assms
  by (auto simp: burst_post_prompt_def has_prompt_def Let_def add_def split: js.splits)

lemma server_post_prompt_example:
  "server_post_prompt verbose (Some (JObj [(''prompt'', JStr ''x'')])) 5 ''abc'' 5
     \<lparr>store = \<lparr>prompts = []\<rparr>, sseClients = [\<lparr>conn = 1, written = []\<rparr>], spawned = []\<rparr>
   = (HttpResponse 200 [(''success'', JBool True), (''id'', JStr (mk_id 5 ''abc''))],
      \<lparr>store = \<lparr>prompts = [\<lparr>pid = mk_id 5 ''abc'', prompt = ''x'', url = JStr [],
                            pathname = JStr ''/'', timestamp = 5\<rparr>]\<rparr>,
       sseClients = [\<lparr>conn = 1, written =
          [SseEvent ''status'' [(''status'', JStr ''received''), (''id'', JStr (mk_id 5 ''abc''))]]\<rparr>],
       spawned = []\<rparr>)"
  by (simp add: server_post_prompt_def Let_def add_def js_or_def publish_def broadcastEvent_def)

text \<open>
  C3 fails in burst mode. On the body \<^verbatim>\<open>{"prompt":"x"}\<close> with one subscriber, the
  handler of burst.ts appends the record, but the subscriber gets no \<^verbatim>\<open>received\<close>
  status and the answer is 200 with \<^verbatim>\<open>success\<close> alone, without the id.
\<close>

theorem burst_post_prompt_no_event_no_id:
  "burst_post_prompt (Some (JObj [(''prompt'', JStr ''x'')])) 5 ''abc'' 5
     \<lparr>store = \<lparr>prompts = []\<rparr>, sseClients = [\<lparr>conn = 1, written = []\<rparr>], spawned = []\<rparr>
   = (HttpResponse 200 [(''success'', JBool True)],
      \<lparr>store = \<lparr>prompts = [\<lparr>pid = mk_id 5 ''abc'', prompt = ''x'', url = JStr [],
                            pathname = JStr ''/'', timestamp = 5\<rparr>]\<rparr>,
       sseClients = [\<lparr>conn = 1, written = []\<rparr>], spawned = []\<rparr>)"
  by (simp add: burst_post_prompt_def Let_def add_def js_or_def)

text \<open>The answer and the subscriber's messages at that request, read off the result.\<close>

theorem burst_post_prompt_no_event_no_id_witness:
  "fst (burst_post_prompt (Some (JObj [(''prompt'', JStr ''x'')])) 5 ''abc'' 5
     \<lparr>store = \<lparr>prompts = []\<rparr>, sseClients = [\<lparr>conn = 1, written = []\<rparr>], spawned = []\<rparr>)
     = HttpResponse 200 [(''success'', JBool True)]
   \<and> sseClients (snd (burst_post_prompt (Some (JObj [(''prompt'', JStr ''x'')])) 5 ''abc'' 5
     \<lparr>store = \<lparr>prompts = []\<rparr>, sseClients = [\<lparr>conn = 1, written = []\<rparr>], spawned = []\<rparr>))
     = [\<lparr>conn = 1, written = []\<rparr>]"
  using burst_post_prompt_no_event_no_id by simp

section \<open>A port in use\<close>

text \<open>
  C4, as the code has it. When the listener cannot bind because the port is in use,
  \<^verbatim>\<open>createHttpServer\<close> of server.ts logs the fact and resolves, so interactive
  mode goes on to connect the MCP transport and the process keeps running, without an
  HTTP listener; it exits with status 1 only if that connection fails. In burst mode a
  port in use is fatal: exit status 1. Every other listen error is fatal in both modes.
\<close>

theorem port_in_use_by_mode:
  "cli False False port (ListenError ''EADDRINUSE'') connect_error =
     (case connect_error of None \<Rightarrow> Running False | Some e \<Rightarrow> Exited 1)
   \<and> server_createHttpServer (ListenError ''EADDRINUSE'') = Inr ()
   \<and> cli False True port (ListenError code) connect_error = Exited 1
   \<and> (code \<noteq> ''EADDRINUSE'' \<longrightarrow> cli False False port (ListenError code) connect_error = Exited 1)"
  by (simp add: cli_def startServer_def server_createHttpServer_def burst_createHttpServer_def
      split: option.splits)

theorem port_in_use_by_mode_witness:
  "''EACCES'' \<noteq> ''EADDRINUSE''
   \<and> cli False False 4242 (ListenError ''EACCES'') None = Exited 1
   \<and> cli False True 4242 (ListenError ''EADDRINUSE'') None = Exited 1
   \<and> cli False False 4242 (ListenError ''EADDRINUSE'') None = Running False"
  using port_in_use_by_mode [of 4242 None "''EACCES''"]
    port_in_use_by_mode [of 4242 None "''EADDRINUSE''"] by simp

text \<open>
  Interactive mode with the port in use and a transport that connects: the process is
  running, it has not exited with any status.
\<close>

theorem interactive_port_in_use_counterexample:
  "cli False False 4242 (ListenError ''EADDRINUSE'') None = Running False
   \<and> cli False False 4242 (ListenError ''EADDRINUSE'') None \<noteq> Exited 1"
  by (simp add: cli_def startServer_def server_createHttpServer_def)

section \<open>Watch with a timeout that is not positive\<close>

text \<open>
  C10. When \<^verbatim>\<open>timeout_seconds\<close> is a number less than or equal to zero,
  \<^verbatim>\<open>playground_watch\<close> returns the timeout text at the first test of its loop,
  whatever the queue holds and before any \<^verbatim>\<open>await\<close>: the state is returned as it
  was, so no record is removed and no status is published. When \<^verbatim>\<open>timeout_seconds\<close>
  is absent or not a number, the timeout is 300 seconds.
\<close>

theorem watch_nonpositive_timeout:
  "(get_prop toolArgs ''timeout_seconds'' = JNum t \<and> t \<le> 0 \<longrightarrow>
      playground_watch verbose h toolArgs now0 d0 ticks w = Some (Text watch_timeout_text, w))
   \<and> (\<not> is_number (get_prop toolArgs' ''timeout_seconds'') \<longrightarrow> watch_timeout toolArgs' = 300)"
proof (intro conjI impI)
  assume a: "get_prop toolArgs ''timeout_seconds'' = JNum t \<and> t \<le> 0"
  then have "watch_timeout toolArgs = t" by (simp add: watch_timeout_def)
  moreover have "deadline_of now0 t \<le> time_value (now0 + d0)"
    using a by (simp add: deadline_of_nonpos)
  ultimately have "\<not> time_value (now0 + d0) < deadline_of now0 (watch_timeout toolArgs)"
    by simp
  then have "watch_poll verbose h (deadline_of now0 (watch_timeout toolArgs)) (now0 + d0) w
      = (Some (Text watch_timeout_text), w)"
    by (simp add: watch_poll_def)
  then show "playground_watch verbose h toolArgs now0 d0 ticks w = Some (Text watch_timeout_text, w)"
    by (cases ticks) (simp_all add: playground_watch_def)
next
  assume "\<not> is_number (get_prop toolArgs' ''timeout_seconds'')"
  then show "watch_timeout toolArgs' = 300" by (simp add: watch_timeout_def)
qed

text \<open>
  A timeout of zero with a record queued and a subscriber listening: the call times out
  and both are as before. The string \<^verbatim>\<open>"5"\<close> is no number: the timeout is 300.
\<close>

theorem watch_nonpositive_timeout_witness:
  "get_prop (JObj [(''timeout_seconds'', JNum 0)]) ''timeout_seconds'' = JNum 0 \<and> (0::real) \<le> 0
   \<and> playground_watch False example_host
        (JObj [(''timeout_seconds'', JNum 0)]) 100 0 []
        \<lparr>store = \<lparr>prompts = [\<lparr>pid = mk_id 5 ''abc'', prompt = ''x'', url = JStr [],
                              pathname = JStr ''/'', timestamp = 5\<rparr>]\<rparr>,
         sseClients = [\<lparr>conn = 1, written = []\<rparr>], spawned = []\<rparr>
      = Some (Text watch_timeout_text,
        \<lparr>store = \<lparr>prompts = [\<lparr>pid = mk_id 5 ''abc'', prompt = ''x'', url = JStr [],
                              pathname = JStr ''/'', timestamp = 5\<rparr>]\<rparr>,
         sseClients = [\<lparr>conn = 1, written = []\<rparr>], spawned = []\<rparr>)
   \<and> \<not> is_number (get_prop (JObj [(''timeout_seconds'', JStr ''5'')]) ''timeout_seconds'')
   \<and> watch_timeout (JObj [(''timeout_seconds'', JStr ''5'')]) = 300"
  using watch_nonpositive_timeout [of "JObj [(''timeout_seconds'', JNum 0)]" 0 False
     example_host 100 0 "[]"
     "\<lparr>store = \<lparr>prompts = [\<lparr>pid = mk_id 5 ''abc'', prompt = ''x'', url = JStr [],
                              pathname = JStr ''/'', timestamp = 5\<rparr>]\<rparr>,
         sseClients = [\<lparr>conn = 1, written = []\<rparr>], spawned = []\<rparr>"
     "JObj [(''timeout_seconds'', JStr ''5'')]"]
  by simp

section \<open>One call of watch\<close>

lemma clock_at_0: "clock_at now ticks 0 = now"
  by (simp add: clock_at_def)

lemma world_at_0: "world_at verbose w ticks 0 = w"
  by (simp add: world_at_def)

lemma clock_at_Suc: "clock_at now (t # ts) (Suc k) = clock_at (now + snd t) ts k"
  by (simp add: clock_at_def)

lemma world_at_Suc:
  "world_at verbose w (t # ts) (Suc k) = world_at verbose (server_https verbose (fst t) w) ts k"
  by (simp add: world_at_def)

lemma decisive_Suc:
  "decisive verbose deadline now (t # ts) w (Suc k)
     = decisive verbose deadline (now + snd t) ts (server_https verbose (fst t) w) k"
  by (simp add: decisive_def clock_at_Suc world_at_Suc)

lemma find_map_shift: "find P (map f xs) = map_option f (find (\<lambda>x. P (f x)) xs)"
  by (induction xs) auto

lemma find_upt_Suc:
  "find P [0..<Suc (Suc n)] =
     (if P 0 then Some 0 else map_option Suc (find (\<lambda>k. P (Suc k)) [0..<Suc n]))"
proof -
  have "[0..<Suc (Suc n)] = 0 # map Suc [0..<Suc n]"
    by (simp only: map_Suc_upt upt_conv_Cons [of 0 "Suc (Suc n)"] zero_less_Suc)
  then show ?thesis by (simp only: find.simps find_map_shift)
qed

lemma watch_poll_undecided:
  "\<not> decisive verbose deadline now ticks w 0 \<Longrightarrow>
   watch_poll verbose h deadline now w = (None, w)"
  by (simp add: decisive_def clock_at_0 world_at_0 watch_poll_def getOldest_def)

lemma watch_poll_decided:
  "decisive verbose deadline now ticks w 0 \<Longrightarrow>
   watch_poll verbose h deadline now w =
     (if time_value now < deadline
      then (case prompts (store w) of
              p # ps \<Rightarrow> (Some (fst (take_oldest verbose h p w)), snd (take_oldest verbose h p w))
            | [] \<Rightarrow> (None, w))
      else (Some (Text watch_timeout_text), w))"
  by (auto simp: decisive_def clock_at_0 world_at_0 watch_poll_def getOldest_def
      case_prod_unfold split: list.splits)

lemma watch_loop_decision:
  "watch_loop verbose h deadline now ticks w =
     (case watch_decision verbose deadline now ticks w of
        StillWaiting \<Rightarrow> None
      | TimesOut wk \<Rightarrow> Some (Text watch_timeout_text, wk)
      | Takes p wk \<Rightarrow> Some (take_oldest verbose h p wk))"
proof (induction ticks arbitrary: now w)
  case Nil
  show ?case
  proof (cases "decisive verbose deadline now [] w 0")
    case True
    then show ?thesis
      by (auto simp: watch_poll_decided [OF True] watch_decision_def clock_at_0
          world_at_0 decisive_def split: list.splits)
  next
    case False
    then show ?thesis
      by (simp add: watch_poll_undecided [OF False] watch_decision_def)
  qed
next
  case (Cons t ts)
  show ?case
  proof (cases "decisive verbose deadline now (t # ts) w 0")
    case True
    have "find (decisive verbose deadline now (t # ts) w) [0..<Suc (length (t # ts))] = Some 0"
      using True by (simp only: length_Cons find_upt_Suc if_True)
    with True show ?thesis
      by (auto simp: watch_poll_decided [OF True] watch_decision_def clock_at_0
          world_at_0 decisive_def split: list.splits)
  next
    case False
    have f: "find (decisive verbose deadline now (t # ts) w) [0..<Suc (length (t # ts))]
        = map_option Suc
            (find (decisive verbose deadline (now + snd t) ts (server_https verbose (fst t) w))
               [0..<Suc (length ts)])"
      using False by (simp only: length_Cons find_upt_Suc if_False decisive_Suc)
    have "watch_loop verbose h deadline now (t # ts) w
        = watch_loop verbose h deadline (now + snd t) ts (server_https verbose (fst t) w)"
      by (simp add: watch_poll_undecided [OF False])
    also have "\<dots> =
        (case watch_decision verbose deadline (now + snd t) ts (server_https verbose (fst t) w) of
           StillWaiting \<Rightarrow> None
         | TimesOut wk \<Rightarrow> Some (Text watch_timeout_text, wk)
         | Takes p wk \<Rightarrow> Some (take_oldest verbose h p wk))"
      by (rule Cons.IH)
    also have "watch_decision verbose deadline (now + snd t) ts (server_https verbose (fst t) w)
        = watch_decision verbose deadline now (t # ts) w"
      unfolding watch_decision_def f
      by (cases "find (decisive verbose deadline (now + snd t) ts (server_https verbose (fst t) w))
            [0..<Suc (length ts)]") (simp_all add: clock_at_Suc world_at_Suc)
    finally show ?thesis .
  qed
qed

lemma watch_decision_returns:
  assumes "deadline \<le> time_value (clock_at now ticks (length ticks))"
  shows "watch_decision verbose deadline now ticks w \<noteq> StillWaiting"
proof -
  have "decisive verbose deadline now ticks w (length ticks)"
    using assms by (simp add: decisive_def)
  then have "find (decisive verbose deadline now ticks w) [0..<Suc (length ticks)] \<noteq> None"
    by (auto simp only: find_None_iff set_upt atLeastLessThan_iff)
  then obtain k where
    k: "find (decisive verbose deadline now ticks w) [0..<Suc (length ticks)] = Some k"
    by auto
  then have "decisive verbose deadline now ticks w k"
    by (auto simp: find_Some_iff)
  with k show ?thesis
    by (auto simp: watch_decision_def decisive_def Let_def split: list.splits)
qed

lemma take_oldest_text:
  assumes "prompts (store w) = p # ps" "\<not> verbose \<or> prints (pathname p)"
    "format_prompt h p = Some t"
  shows "take_oldest verbose h p w =
     (Text t, (publish ''status'' [(''status'', JStr ''processing'')] w)
                \<lparr>store := (store w)\<lparr>prompts := ps\<rparr>\<rparr>)"
  using assms
  by (simp add: take_oldest_def removeOldest_def publish_def Let_def prompt_result_text)

text \<open>
  C2, as the code has it. The timeout is \<^verbatim>\<open>timeout_seconds\<close> when that is a number,
  300 seconds otherwise, and never more than 600; the deadline is the clock reading at
  the call plus the timeout in milliseconds, as the doubles give it. The call tests the
  clock and then the queue once per pass of its loop, a second apart, and the first pass
  at which the clock has reached the deadline or the queue is not empty decides it
  (\<open>watch_decision\<close>). At or after the deadline the call returns the timeout text and
  leaves the state alone, also when a record arrived after the last pass. Before the
  deadline with a record queued the call takes the oldest record (\<open>take_oldest\<close>): for
  a record whose url and pathname print, it publishes \<^verbatim>\<open>processing\<close>, removes
  the record and returns it with its provenance, a text that is never the timeout text.
  The call returns once the clock has reached the deadline.
\<close>

theorem watch_decided_by_first_deciding_test:
  "watch_timeout toolArgs =
     (if is_number (get_prop toolArgs ''timeout_seconds'')
      then min (num_of (get_prop toolArgs ''timeout_seconds'')) 600 else 300)
   \<and> watch_timeout toolArgs \<le> 600
   \<and> playground_watch verbose h toolArgs now0 d0 ticks w =
       (case watch_decision verbose (deadline_of now0 (watch_timeout toolArgs)) (now0 + d0) ticks w of
          StillWaiting \<Rightarrow> None
        | TimesOut wk \<Rightarrow> Some (Text watch_timeout_text, wk)
        | Takes p wk \<Rightarrow> Some (take_oldest verbose h p wk))
   \<and> (prompts (store w') = p # ps \<and> (\<not> verbose \<or> prints (pathname p))
        \<and> format_prompt h p = Some t \<longrightarrow>
      take_oldest verbose h p w' =
        (Text t, (publish ''status'' [(''status'', JStr ''processing'')] w')
                   \<lparr>store := (store w')\<lparr>prompts := ps\<rparr>\<rparr>)
      \<and> t \<noteq> watch_timeout_text)
   \<and> (deadline_of now0 (watch_timeout toolArgs)
          \<le> time_value (clock_at (now0 + d0) ticks (length ticks))
        \<longrightarrow> playground_watch verbose h toolArgs now0 d0 ticks w \<noteq> None)"
proof (intro conjI impI)
  show "watch_timeout toolArgs =
     (if is_number (get_prop toolArgs ''timeout_seconds'')
      then min (num_of (get_prop toolArgs ''timeout_seconds'')) 600 else 300)"
    by (simp add: watch_timeout_def)
  show "watch_timeout toolArgs \<le> 600"
    by (simp add: watch_timeout_def)
  show eq: "playground_watch verbose h toolArgs now0 d0 ticks w =
       (case watch_decision verbose (deadline_of now0 (watch_timeout toolArgs)) (now0 + d0) ticks w of
          StillWaiting \<Rightarrow> None
        | TimesOut wk \<Rightarrow> Some (Text watch_timeout_text, wk)
        | Takes p wk \<Rightarrow> Some (take_oldest verbose h p wk))"
    by (simp add: playground_watch_def watch_loop_decision)
  show "take_oldest verbose h p w' =
        (Text t, (publish ''status'' [(''status'', JStr ''processing'')] w')
                   \<lparr>store := (store w')\<lparr>prompts := ps\<rparr>\<rparr>)"
    if "prompts (store w') = p # ps \<and> (\<not> verbose \<or> prints (pathname p))
        \<and> format_prompt h p = Some t"
    using that by (intro take_oldest_text) simp_all
  show "t \<noteq> watch_timeout_text"
    if "prompts (store w') = p # ps \<and> (\<not> verbose \<or> prints (pathname p))
        \<and> format_prompt h p = Some t"
    using that by (intro format_ne_timeout [of h p]) simp
  show "playground_watch verbose h toolArgs now0 d0 ticks w \<noteq> None"
    if "deadline_of now0 (watch_timeout toolArgs)
          \<le> time_value (clock_at (now0 + d0) ticks (length ticks))"
    using watch_decision_returns [OF that, of verbose w]
    by (simp add: playground_watch_def watch_loop_decision split: decision.splits)
qed

text \<open>
  A timeout of two seconds on an empty queue, so the deadline is at 2000 ms; a prompt
  arrives during the first sleep and the second pass, at 1000 ms, delivers it.
\<close>

theorem watch_decided_by_first_deciding_test_witness:
  "deadline_of 0 (watch_timeout (JObj [(''timeout_seconds'', JNum 2)])) = 2000
   \<and> deadline_of 0 (watch_timeout (JObj [(''timeout_seconds'', JNum 2)]))
     \<le> time_value (clock_at (0 + 0)
          [([PostPrompt (Some (JObj [(''prompt'', JStr ''x'')])) 400 ''abc'' 400], 1000), ([], 1000)]
          (length [([PostPrompt (Some (JObj [(''prompt'', JStr ''x'')])) 400 ''abc'' 400], 1000::nat),
                   ([], 1000)]))
   \<and> prompts (store
        \<lparr>store = \<lparr>prompts = [\<lparr>pid = mk_id 400 ''abc'', prompt = ''x'', url = JStr [],
                              pathname = JStr ''/'', timestamp = 400\<rparr>]\<rparr>,
         sseClients = [\<lparr>conn = 1, written =
           [SseEvent ''status'' [(''status'', JStr ''received''), (''id'', JStr (mk_id 400 ''abc''))]]\<rparr>],
         spawned = []\<rparr>)
      = \<lparr>pid = mk_id 400 ''abc'', prompt = ''x'', url = JStr [], pathname = JStr ''/'',
         timestamp = 400\<rparr> # []
   \<and> (prints (pathname \<lparr>pid = mk_id 400 ''abc'', prompt = ''x'', url = JStr [],
         pathname = JStr ''/'', timestamp = 400\<rparr>))
   \<and> format_prompt example_host
        \<lparr>pid = mk_id 400 ''abc'', prompt = ''x'', url = JStr [], pathname = JStr ''/'',
         timestamp = 400\<rparr>
      = Some (''# Playground Prompt'' @ nl @ nl @ ''**Source:** /'' @ nl
              @ ''**Received:** 12:00:00'' @ nl @ nl @ ''---'' @ nl @ nl @ ''x'')
   \<and> playground_watch False example_host
        (JObj [(''timeout_seconds'', JNum 2)]) 0 0
        [([PostPrompt (Some (JObj [(''prompt'', JStr ''x'')])) 400 ''abc'' 400], 1000), ([], 1000)]
        \<lparr>store = \<lparr>prompts = []\<rparr>, sseClients = [\<lparr>conn = 1, written = []\<rparr>], spawned = []\<rparr>
      = Some (Text (''# Playground Prompt'' @ nl @ nl @ ''**Source:** /'' @ nl
                @ ''**Received:** 12:00:00'' @ nl @ nl @ ''---'' @ nl @ nl @ ''x''),
              \<lparr>store = \<lparr>prompts = []\<rparr>,
               sseClients = [\<lparr>conn = 1, written =
                 [SseEvent ''status'' [(''status'', JStr ''received''), (''id'', JStr (mk_id 400 ''abc''))],
                  SseEvent ''status'' [(''status'', JStr ''processing'')]]\<rparr>],
               spawned = []\<rparr>)"
  using watch_decided_by_first_deciding_test [where
        toolArgs = "JObj [(''timeout_seconds'', JNum 2)]" and verbose = False
        and h = example_host and ?now0.0 = 0 and ?d0.0 = 0
        and ticks = "[([PostPrompt (Some (JObj [(''prompt'', JStr ''x'')])) 400 ''abc'' 400], 1000), ([], 1000)]"
        and w = "\<lparr>store = \<lparr>prompts = []\<rparr>, sseClients = [\<lparr>conn = 1, written = []\<rparr>], spawned = []\<rparr>"
        and w' = "\<lparr>store = \<lparr>prompts = [\<lparr>pid = mk_id 400 ''abc'', prompt = ''x'', url = JStr [],
                              pathname = JStr ''/'', timestamp = 400\<rparr>]\<rparr>,
         sseClients = [\<lparr>conn = 1, written =
           [SseEvent ''status'' [(''status'', JStr ''received''), (''id'', JStr (mk_id 400 ''abc''))]]\<rparr>],
         spawned = []\<rparr>"
        and p = "\<lparr>pid = mk_id 400 ''abc'', prompt = ''x'', url = JStr [], pathname = JStr ''/'',
         timestamp = 400\<rparr>" and ps = "[]"
        and t = "''# Playground Prompt'' @ nl @ nl @ ''**Source:** /'' @ nl
              @ ''**Received:** 12:00:00'' @ nl @ nl @ ''---'' @ nl @ nl @ ''x''"]
  by (simp add: deadline_of_def watch_timeout_def fl_numeral clock_at_def time_value_def
      playground_watch_def watch_poll_def
      take_oldest_def prompt_result_def format_prompt_def to_str_def example_host_def
      getOldest_def removeOldest_def server_https_def server_post_prompt_def add_def js_or_def
      publish_def broadcastEvent_def Let_def)

text \<open>
  A timeout of a second and a half on an empty queue: the deadline is at 1500 ms. The
  passes at 0 ms and 1000 ms find the queue empty; a prompt arrives at 1200 ms, before
  the deadline; the pass at 2000 ms is past the deadline, so the call returns the timeout
  text and the record stays queued.
\<close>

theorem watch_late_arrival_counterexample:
  "deadline_of 0 (watch_timeout (JObj [(''timeout_seconds'', JNum 1.5)])) = 1500
   \<and> playground_watch False example_host
        (JObj [(''timeout_seconds'', JNum 1.5)]) 0 0
        [([], 1000), ([PostPrompt (Some (JObj [(''prompt'', JStr ''x'')])) 1200 ''abc'' 1200], 1000)]
        \<lparr>store = \<lparr>prompts = []\<rparr>, sseClients = [], spawned = []\<rparr>
      = Some (Text watch_timeout_text,
              \<lparr>store = \<lparr>prompts = [\<lparr>pid = mk_id 1200 ''abc'', prompt = ''x'', url = JStr [],
                                    pathname = JStr ''/'', timestamp = 1200\<rparr>]\<rparr>,
               sseClients = [], spawned = []\<rparr>)"
  by (simp add: deadline_of_def watch_timeout_def time_value_def fl_numeral
      playground_watch_def watch_poll_def getOldest_def
      removeOldest_def server_https_def server_post_prompt_def add_def js_or_def publish_def
      broadcastEvent_def Let_def)

section \<open>Several calls of watch and one record\<close>

lemma delivered_update:
  assumes "i < length ws" "ws ! i = Waiting d"
  shows "delivered t (ws[i := Finished x]) = delivered t ws + (if x = Text t then 1 else 0)"
proof -
  have a: "ws[i := Finished x] = take i ws @ Finished x # drop (Suc i) ws"
    using assms(1) by (rule upd_conv_take_nth_drop)
  have "delivered t ws = delivered t (take i ws @ ws ! i # drop (Suc i) ws)"
    using assms(1) by (simp only: id_take_nth_drop [symmetric])
  also have "\<dots> = delivered t (take i ws) + delivered t (drop (Suc i) ws)"
    by (simp add: delivered_def assms(2))
  finally have b: "delivered t ws = delivered t (take i ws) + delivered t (drop (Suc i) ws)" .
  show ?thesis unfolding a b by (simp add: delivered_def)
qed

lemma list_all_update:
  "list_all P ws \<Longrightarrow> P x \<Longrightarrow> list_all P (ws[i := x])"
  by (auto simp: list_all_iff dest: set_update_subset_insert [THEN subsetD])

lemma watch_poll_late:
  "\<not> time_value now < d \<Longrightarrow> watch_poll verbose h d now w = (Some (Text watch_timeout_text), w)"
  by (simp add: watch_poll_def)

lemma watch_poll_empty:
  "time_value now < d \<Longrightarrow> prompts (store w) = [] \<Longrightarrow> watch_poll verbose h d now w = (None, w)"
  by (simp add: watch_poll_def getOldest_def)

lemma watch_poll_takes:
  assumes "time_value now < d" "prompts (store w) = [r]" "\<not> verbose \<or> prints (pathname r)"
    "format_prompt h r = Some t"
  shows "watch_poll verbose h d now w =
     (Some (Text t), (publish ''status'' [(''status'', JStr ''processing'')] w)
                       \<lparr>store := (store w)\<lparr>prompts := []\<rparr>\<rparr>)"
  using assms(1,2) take_oldest_text [OF assms(2-4)]
  by (simp add: watch_poll_def getOldest_def)

lemma resume_one_record:
  assumes "one_record t r s" "\<not> verbose \<or> prints (pathname r)" "format_prompt h r = Some t"
  shows "one_record t r (resume verbose h i s)
     \<and> length (watchers (resume verbose h i s)) = length (watchers s)
     \<and> clock (resume verbose h i s) = clock s
     \<and> (prompts (store (the_world s)) = []
          \<longrightarrow> prompts (store (the_world (resume verbose h i s))) = [])"
proof (cases "i < length (watchers s)")
  case False
  with assms(1) show ?thesis by (simp add: resume_def)
next
  case True
  note ne = format_ne_timeout [OF assms(3)]
  show ?thesis
  proof (cases "watchers s ! i")
    case (Finished x)
    with True assms(1) show ?thesis by (simp add: resume_def)
  next
    case (Waiting d)
    note upd = delivered_update [OF True Waiting, of t]
    from assms(1) have "prompts (store (the_world s)) = [r] \<or> prompts (store (the_world s)) = []"
      by (simp add: one_record_def)
    then show ?thesis
    proof
      assume st: "prompts (store (the_world s)) = [r]"
      with assms(1) have d0: "delivered t (watchers s) = 0" by (simp add: one_record_def)
      show ?thesis
      proof (cases "time_value (clock s) < d")
        case True
        note wp = watch_poll_takes [OF True st assms(2,3)]
        from \<open>i < length (watchers s)\<close> Waiting assms(1) st d0 show ?thesis
          by (simp add: resume_def wp one_record_def upd list_all_update publish_def)
      next
        case False
        note wp = watch_poll_late [OF False, of verbose h "the_world s"]
        from \<open>i < length (watchers s)\<close> Waiting assms(1) st d0 ne show ?thesis
          by (simp add: resume_def wp one_record_def upd list_all_update)
      qed
    next
      assume st: "prompts (store (the_world s)) = []"
      show ?thesis
      proof (cases "time_value (clock s) < d")
        case True
        note wp = watch_poll_empty [OF True st, of verbose h]
        from \<open>i < length (watchers s)\<close> Waiting assms(1) st show ?thesis
          by (simp add: resume_def wp)
      next
        case False
        note wp = watch_poll_late [OF False, of verbose h "the_world s"]
        from \<open>i < length (watchers s)\<close> Waiting assms(1) st ne show ?thesis
          by (simp add: resume_def wp one_record_def upd list_all_update)
      qed
    qed
  qed
qed

lemma resume_delivers:
  assumes "one_record t r s" "i < length (watchers s)" "watchers s ! i = Waiting d"
    "time_value (clock s) < d"
  shows "prompts (store (the_world (resume verbose h i s))) = []"
proof -
  from assms(1) have "prompts (store (the_world s)) = [r] \<or> prompts (store (the_world s)) = []"
    by (simp add: one_record_def)
  then show ?thesis
    using assms(2-4)
    by (auto simp: resume_def watch_poll_def take_oldest_def getOldest_def removeOldest_def
        publish_def Let_def)
qed

lemma step_one_record:
  assumes "one_record t r s" "quiet e" "\<not> verbose \<or> prints (pathname r)"
    "format_prompt h r = Some t"
  shows "one_record t r (sched_step verbose h e s)
     \<and> length (watchers (sched_step verbose h e s)) = length (watchers s)
     \<and> (prompts (store (the_world s)) = []
          \<longrightarrow> prompts (store (the_world (sched_step verbose h e s))) = [])"
proof (cases e)
  case (Advance d)
  with assms(1) show ?thesis by (simp add: one_record_def)
next
  case (Resume i)
  with resume_one_record [OF assms(1,3,4), of i] show ?thesis by simp
qed (use assms(2) in simp_all)

lemma run_one_record:
  assumes "one_record t r s" "list_all quiet evs" "\<not> verbose \<or> prints (pathname r)"
    "format_prompt h r = Some t"
  shows "one_record t r (run_sched verbose h evs s)
     \<and> length (watchers (run_sched verbose h evs s)) = length (watchers s)
     \<and> (prompts (store (the_world s)) = []
          \<longrightarrow> prompts (store (the_world (run_sched verbose h evs s))) = [])"
  using assms(1,2)
proof (induction evs arbitrary: s)
  case Nil
  then show ?case by (simp add: run_sched_def)
next
  case (Cons e evs)
  from Cons.prems have q: "quiet e" "list_all quiet evs" by simp_all
  note st = step_one_record [OF Cons.prems(1) q(1) assms(3,4)]
  from Cons.IH [OF st [THEN conjunct1] q(2)] st show ?case
    by (simp add: run_sched_def)
qed

lemma start_one_record:
  assumes "prompts (store (the_world s)) = [r]" "list_all is_waiting (watchers s)"
  shows "one_record t r s"
proof -
  have "filter (\<lambda>x. x = Finished (Text t)) (watchers s) = []"
    using assms(2) by (auto simp: filter_empty_conv list_all_iff)
  with assms show ?thesis
    by (auto simp: one_record_def delivered_def list_all_iff)
qed

text \<open>Calls past their deadlines: a resumed call times out and the state stays as it is.\<close>

lemma past_deadline_later:
  "past_deadline a x \<Longrightarrow> a \<le> b \<Longrightarrow> past_deadline b x"
  using time_value_mono [of a b] by (cases x) auto

lemma resume_late:
  assumes "list_all (past_deadline (clock s)) (watchers s)"
  shows "the_world (resume verbose h i s) = the_world s
     \<and> clock (resume verbose h i s) = clock s
     \<and> list_all (past_deadline (clock s)) (watchers (resume verbose h i s))
     \<and> (i < length (watchers s) \<longrightarrow> \<not> is_waiting (watchers (resume verbose h i s) ! i))"
proof (cases "i < length (watchers s)")
  case False
  with assms show ?thesis by (simp add: resume_def)
next
  case True
  show ?thesis
  proof (cases "watchers s ! i")
    case (Finished x)
    with True assms show ?thesis by (simp add: resume_def)
  next
    case (Waiting d)
    from assms True have "past_deadline (clock s) (watchers s ! i)"
      by (simp add: list_all_length)
    with Waiting have late: "\<not> time_value (clock s) < d" by simp
    note wp = watch_poll_late [OF late, of verbose h "the_world s"]
    from True Waiting assms show ?thesis
      by (simp add: resume_def wp list_all_update)
  qed
qed

lemma step_late:
  assumes "list_all (past_deadline (clock s)) (watchers s)" "quiet e"
  shows "the_world (sched_step verbose h e s) = the_world s
     \<and> list_all (past_deadline (clock (sched_step verbose h e s)))
          (watchers (sched_step verbose h e s))"
proof (cases e)
  case (Advance d)
  have "list_all (past_deadline (clock s + d)) (watchers s)"
    using assms(1) past_deadline_later [of "clock s" _ "clock s + d"]
    by (auto simp: list_all_iff)
  with Advance show ?thesis by simp
next
  case (Resume i)
  with resume_late [OF assms(1), of verbose h i] show ?thesis by simp
qed (use assms(2) in simp_all)

lemma run_late:
  assumes "list_all (past_deadline (clock s)) (watchers s)" "list_all quiet evs"
  shows "the_world (run_sched verbose h evs s) = the_world s
     \<and> list_all (past_deadline (clock (run_sched verbose h evs s)))
          (watchers (run_sched verbose h evs s))"
  using assms
proof (induction evs arbitrary: s)
  case Nil
  then show ?case by (simp add: run_sched_def)
next
  case (Cons e evs)
  from Cons.prems have q: "quiet e" "list_all quiet evs" by simp_all
  note st = step_late [OF Cons.prems(1) q(1), of verbose h]
  from Cons.IH [OF st [THEN conjunct2] q(2)] st show ?case
    by (simp add: run_sched_def)
qed

lemma resume_keeps_finished:
  assumes "j < length (watchers s)" "\<not> is_waiting (watchers s ! j)"
  shows "length (watchers (resume verbose h i s)) = length (watchers s)
     \<and> \<not> is_waiting (watchers (resume verbose h i s) ! j)"
proof (cases "i < length (watchers s)")
  case False
  with assms show ?thesis by (simp add: resume_def)
next
  case True
  show ?thesis
  proof (cases "watchers s ! i")
    case (Finished x)
    with True assms show ?thesis by (simp add: resume_def)
  next
    case (Waiting d)
    with assms(2) have ij: "i \<noteq> j" by auto
    obtain res w' where wp: "watch_poll verbose h d (clock s) (the_world s) = (res, w')"
      by (cases "watch_poll verbose h d (clock s) (the_world s)")
    from True Waiting assms ij show ?thesis
      by (cases res) (simp_all add: resume_def wp)
  qed
qed

lemma run_keeps_finished:
  assumes "j < length (watchers s)" "\<not> is_waiting (watchers s ! j)" "list_all quiet evs"
  shows "\<not> is_waiting (watchers (run_sched verbose h evs s) ! j)"
  using assms
proof (induction evs arbitrary: s)
  case Nil
  then show ?case by (simp add: run_sched_def)
next
  case (Cons e evs)
  from Cons.prems have q: "quiet e" "list_all quiet evs" by simp_all
  have st: "length (watchers (sched_step verbose h e s)) = length (watchers s)
     \<and> \<not> is_waiting (watchers (sched_step verbose h e s) ! j)"
  proof (cases e)
    case (Advance d)
    with Cons.prems show ?thesis by simp
  next
    case (Resume i)
    with resume_keeps_finished [OF Cons.prems(1,2), of verbose h i] show ?thesis by simp
  qed (use q(1) in simp_all)
  from st Cons.prems(1) have j: "j < length (watchers (sched_step verbose h e s))" by simp
  from Cons.IH [OF j st [THEN conjunct2] q(2)] show ?case
    by (simp add: run_sched_def)
qed

text \<open>
  C6, as the code has it. Take any number of suspended calls of watch (two in
  particular), a queue that holds exactly one record \<open>r\<close> whose url and pathname
  print, and any schedule that resumes the calls and advances the clock in any order. At
  every moment the record is either still queued or returned by exactly one call, never
  by two: the calls that received it and the records queued always count one together,
  and every call is waiting, timed out, or holds \<open>r\<close>. A call resumed before its
  deadline while the record is queued takes it, so exactly one call receives the record
  as soon as any call is resumed before its own deadline. When the record is still
  queued at a moment at which every deadline has passed, no call receives it: from then
  on the record stays queued and every call resumed times out.
\<close>

theorem at_most_one_watcher_receives:
  assumes "prompts (store (the_world s)) = [r]"
    and "list_all is_waiting (watchers s)"
    and "list_all quiet (pre @ post)"
    and "\<not> verbose \<or> prints (pathname r)"
    and "format_prompt h r = Some t"
  shows "delivered t (watchers (run_sched verbose h (pre @ post) s))
           + length (prompts (store (the_world (run_sched verbose h (pre @ post) s)))) = 1
     \<and> length (watchers (run_sched verbose h (pre @ post) s)) = length (watchers s)
     \<and> list_all (\<lambda>x. is_waiting x \<or> x = Finished (Text watch_timeout_text)
                      \<or> x = Finished (Text t)) (watchers (run_sched verbose h (pre @ post) s))
     \<and> (i < length (watchers s) \<and> watchers (run_sched verbose h pre s) ! i = Waiting deadline
          \<and> time_value (clock (run_sched verbose h pre s)) < deadline \<longrightarrow>
        delivered t (watchers (run_sched verbose h (pre @ Resume i # post) s)) = 1)
     \<and> (list_all quiet (pre' @ post') \<and> j < length (watchers s)
          \<and> prompts (store (the_world (run_sched verbose h pre' s))) = [r]
          \<and> list_all (past_deadline (clock (run_sched verbose h pre' s)))
               (watchers (run_sched verbose h pre' s)) \<longrightarrow>
        prompts (store (the_world (run_sched verbose h (pre' @ Resume j # post') s))) = [r]
        \<and> delivered t (watchers (run_sched verbose h (pre' @ Resume j # post') s)) = 0
        \<and> watchers (run_sched verbose h (pre' @ Resume j # post') s) ! j
            = Finished (Text watch_timeout_text))"
proof -
  note inv0 = start_one_record [OF assms(1,2), of t]
  note all = run_one_record [OF inv0 assms(3,4,5)]
  from assms(3) have qpre: "list_all quiet pre" and qpost: "list_all quiet post" by simp_all
  note pre = run_one_record [OF inv0 qpre assms(4,5)]
  have live: "delivered t (watchers (run_sched verbose h (pre @ Resume i # post) s)) = 1"
    if "i < length (watchers s)" "watchers (run_sched verbose h pre s) ! i = Waiting deadline"
      "time_value (clock (run_sched verbose h pre s)) < deadline"
  proof -
    let ?s1 = "run_sched verbose h pre s"
    let ?s2 = "resume verbose h i ?s1"
    from that(1) pre have i: "i < length (watchers ?s1)" by simp
    have e2: "prompts (store (the_world ?s2)) = []"
      by (rule resume_delivers [OF pre [THEN conjunct1] i that(2,3)])
    have inv2: "one_record t r ?s2"
      using resume_one_record [OF pre [THEN conjunct1] assms(4,5), of i] by simp
    have fin: "run_sched verbose h (pre @ Resume i # post) s = run_sched verbose h post ?s2"
      by (simp add: run_sched_def)
    from run_one_record [OF inv2 qpost assms(4,5)] e2
    have "one_record t r (run_sched verbose h post ?s2)"
      and "prompts (store (the_world (run_sched verbose h post ?s2))) = []"
      by simp_all
    then show ?thesis
      unfolding fin by (simp add: one_record_def)
  qed
  have late: "prompts (store (the_world (run_sched verbose h (pre' @ Resume j # post') s))) = [r]
        \<and> delivered t (watchers (run_sched verbose h (pre' @ Resume j # post') s)) = 0
        \<and> watchers (run_sched verbose h (pre' @ Resume j # post') s) ! j
            = Finished (Text watch_timeout_text)"
    if "list_all quiet (pre' @ post')" "j < length (watchers s)"
      "prompts (store (the_world (run_sched verbose h pre' s))) = [r]"
      "list_all (past_deadline (clock (run_sched verbose h pre' s)))
               (watchers (run_sched verbose h pre' s))"
  proof -
    let ?s1 = "run_sched verbose h pre' s"
    let ?s2 = "resume verbose h j ?s1"
    let ?s3 = "run_sched verbose h post' ?s2"
    from that(1) have q1: "list_all quiet pre'" and q2: "list_all quiet post'" by simp_all
    note p1 = run_one_record [OF inv0 q1 assms(4,5)]
    from that(2) p1 have j1: "j < length (watchers ?s1)" by simp
    note r2 = resume_late [OF that(4), of verbose h j]
    note o2 = resume_one_record [OF p1 [THEN conjunct1] assms(4,5), of j]
    from o2 j1 have j2: "j < length (watchers ?s2)" by simp
    from r2 j1 have f2: "\<not> is_waiting (watchers ?s2 ! j)" by simp
    from r2 have l2: "list_all (past_deadline (clock ?s2)) (watchers ?s2)" by simp
    note r3 = run_late [OF l2 q2, of verbose h]
    note o3 = run_one_record [OF o2 [THEN conjunct1] q2 assms(4,5)]
    have fin: "run_sched verbose h (pre' @ Resume j # post') s = ?s3"
      by (simp add: run_sched_def)
    from r3 r2 that(3) have st: "prompts (store (the_world ?s3)) = [r]" by simp
    from o3 st have d0: "delivered t (watchers ?s3) = 0" by (simp add: one_record_def)
    note f3 = run_keeps_finished [OF j2 f2 q2, of verbose h]
    from o3 j2 have j3: "j < length (watchers ?s3)" by simp
    from o3 have "list_all (\<lambda>x. is_waiting x \<or> x = Finished (Text watch_timeout_text)
                      \<or> x = Finished (Text t)) (watchers ?s3)"
      by (simp add: one_record_def)
    with j3 have cases3: "is_waiting (watchers ?s3 ! j)
        \<or> watchers ?s3 ! j = Finished (Text watch_timeout_text)
        \<or> watchers ?s3 ! j = Finished (Text t)"
      by (simp add: list_all_length)
    from d0 have "\<forall>x \<in> set (watchers ?s3). x \<noteq> Finished (Text t)"
      by (simp add: delivered_def filter_empty_conv)
    with j3 have "watchers ?s3 ! j \<noteq> Finished (Text t)" by simp
    with cases3 f3 have "watchers ?s3 ! j = Finished (Text watch_timeout_text)" by simp
    with st d0 show ?thesis unfolding fin by simp
  qed
  from all live late show ?thesis by (simp add: one_record_def)
qed

text \<open>
  Two waiting calls with deadlines at 5000 ms and one record queued. When the clock
  moves to 2000 ms and the calls are resumed, the first takes the record and the second
  goes on waiting. When the clock moves to 6000 ms instead, both time out and the record
  stays queued.
\<close>

theorem at_most_one_watcher_receives_witness:
  "prompts (store (the_world
      \<lparr>clock = 1000, watchers = [Waiting 5000, Waiting 5000],
       the_world = \<lparr>store = \<lparr>prompts = [\<lparr>pid = mk_id 5 ''abc'', prompt = ''x'', url = JStr [],
                       pathname = JStr ''/'', timestamp = 5\<rparr>]\<rparr>, sseClients = [], spawned = []\<rparr>\<rparr>))
     = [\<lparr>pid = mk_id 5 ''abc'', prompt = ''x'', url = JStr [], pathname = JStr ''/'', timestamp = 5\<rparr>]
   \<and> list_all is_waiting [Waiting 5000, Waiting 5000]
   \<and> list_all quiet ([Advance 1000] @ [Resume 1])
   \<and> (prints (pathname \<lparr>pid = mk_id 5 ''abc'', prompt = ''x'', url = JStr [],
         pathname = JStr ''/'', timestamp = 5\<rparr>))
   \<and> format_prompt example_host
        \<lparr>pid = mk_id 5 ''abc'', prompt = ''x'', url = JStr [], pathname = JStr ''/'', timestamp = 5\<rparr>
      = Some (''# Playground Prompt'' @ nl @ nl @ ''**Source:** /'' @ nl
              @ ''**Received:** 12:00:00'' @ nl @ nl @ ''---'' @ nl @ nl @ ''x'')
   \<and> run_sched False example_host
          ([Advance 1000] @ Resume 0 # [Resume 1])
          \<lparr>clock = 1000, watchers = [Waiting 5000, Waiting 5000],
           the_world = \<lparr>store = \<lparr>prompts = [\<lparr>pid = mk_id 5 ''abc'', prompt = ''x'', url = JStr [],
                       pathname = JStr ''/'', timestamp = 5\<rparr>]\<rparr>, sseClients = [], spawned = []\<rparr>\<rparr>
     = \<lparr>clock = 2000,
        watchers = [Finished (Text (''# Playground Prompt'' @ nl @ nl @ ''**Source:** /'' @ nl
              @ ''**Received:** 12:00:00'' @ nl @ nl @ ''---'' @ nl @ nl @ ''x'')), Waiting 5000],
        the_world = \<lparr>store = \<lparr>prompts = []\<rparr>, sseClients = [], spawned = []\<rparr>\<rparr>
   \<and> delivered (''# Playground Prompt'' @ nl @ nl @ ''**Source:** /'' @ nl
              @ ''**Received:** 12:00:00'' @ nl @ nl @ ''---'' @ nl @ nl @ ''x'')
        (watchers (run_sched False example_host
          ([Advance 1000] @ Resume 0 # [Resume 1])
          \<lparr>clock = 1000, watchers = [Waiting 5000, Waiting 5000],
           the_world = \<lparr>store = \<lparr>prompts = [\<lparr>pid = mk_id 5 ''abc'', prompt = ''x'', url = JStr [],
                       pathname = JStr ''/'', timestamp = 5\<rparr>]\<rparr>, sseClients = [], spawned = []\<rparr>\<rparr>))
     = 1
   \<and> list_all quiet ([Advance 5000] @ [Resume 0])
   \<and> list_all (past_deadline 6000) [Waiting 5000, Waiting 5000]
   \<and> run_sched False example_host
          ([Advance 5000] @ Resume 1 # [Resume 0])
          \<lparr>clock = 1000, watchers = [Waiting 5000, Waiting 5000],
           the_world = \<lparr>store = \<lparr>prompts = [\<lparr>pid = mk_id 5 ''abc'', prompt = ''x'', url = JStr [],
                       pathname = JStr ''/'', timestamp = 5\<rparr>]\<rparr>, sseClients = [], spawned = []\<rparr>\<rparr>
     = \<lparr>clock = 6000,
        watchers = [Finished (Text watch_timeout_text), Finished (Text watch_timeout_text)],
        the_world = \<lparr>store = \<lparr>prompts = [\<lparr>pid = mk_id 5 ''abc'', prompt = ''x'', url = JStr [],
                       pathname = JStr ''/'', timestamp = 5\<rparr>]\<rparr>, sseClients = [], spawned = []\<rparr>\<rparr>"
  using at_most_one_watcher_receives [where
      s = "\<lparr>clock = 1000, watchers = [Waiting 5000, Waiting 5000],
       the_world = \<lparr>store = \<lparr>prompts = [\<lparr>pid = mk_id 5 ''abc'', prompt = ''x'', url = JStr [],
                       pathname = JStr ''/'', timestamp = 5\<rparr>]\<rparr>, sseClients = [], spawned = []\<rparr>\<rparr>"
      and r = "\<lparr>pid = mk_id 5 ''abc'', prompt = ''x'', url = JStr [], pathname = JStr ''/'', timestamp = 5\<rparr>"
      and pre = "[Advance 1000]" and post = "[Resume 1]" and verbose = False
      and h = example_host
      and t = "''# Playground Prompt'' @ nl @ nl @ ''**Source:** /'' @ nl
              @ ''**Received:** 12:00:00'' @ nl @ nl @ ''---'' @ nl @ nl @ ''x''"
      and i = 0 and deadline = 5000
      and pre' = "[Advance 5000]" and post' = "[Resume 0]" and j = 1]
  by (simp add: run_sched_def resume_def watch_poll_def take_oldest_def prompt_result_def
      format_prompt_def to_str_def example_host_def js_or_def time_value_def delivered_def
      getOldest_def removeOldest_def publish_def broadcastEvent_def Let_def)

text \<open>
  Two calls with a timeout of half a second start on an empty queue and suspend; a
  prompt arrives at 300 ms, so the queue holds exactly one record while both calls wait;
  both are resumed at 1000 ms, past their deadline of 500 ms: both return the timeout
  text, no call receives the record, and the record is still queued.
\<close>

theorem both_watchers_time_out_counterexample:
  "run_sched False example_host
     [Start (JObj [(''timeout_seconds'', JNum 0.5)]), Start (JObj [(''timeout_seconds'', JNum 0.5)]),
      Advance 300, Http (PostPrompt (Some (JObj [(''prompt'', JStr ''x'')])) 300 ''abc'' 300)]
     \<lparr>clock = 0, watchers = [],
      the_world = \<lparr>store = \<lparr>prompts = []\<rparr>, sseClients = [], spawned = []\<rparr>\<rparr>
   = \<lparr>clock = 300, watchers = [Waiting 500, Waiting 500],
      the_world = \<lparr>store = \<lparr>prompts = [\<lparr>pid = mk_id 300 ''abc'', prompt = ''x'', url = JStr [],
                       pathname = JStr ''/'', timestamp = 300\<rparr>]\<rparr>, sseClients = [], spawned = []\<rparr>\<rparr>
   \<and> run_sched False example_host
     [Advance 700, Resume 0, Resume 1]
     \<lparr>clock = 300, watchers = [Waiting 500, Waiting 500],
      the_world = \<lparr>store = \<lparr>prompts = [\<lparr>pid = mk_id 300 ''abc'', prompt = ''x'', url = JStr [],
                       pathname = JStr ''/'', timestamp = 300\<rparr>]\<rparr>, sseClients = [], spawned = []\<rparr>\<rparr>
   = \<lparr>clock = 1000,
      watchers = [Finished (Text watch_timeout_text), Finished (Text watch_timeout_text)],
      the_world = \<lparr>store = \<lparr>prompts = [\<lparr>pid = mk_id 300 ''abc'', prompt = ''x'', url = JStr [],
                       pathname = JStr ''/'', timestamp = 300\<rparr>]\<rparr>, sseClients = [], spawned = []\<rparr>\<rparr>"
  by (simp add: run_sched_def resume_def watch_poll_def watch_timeout_def deadline_of_def
      time_value_def fl_numeral getOldest_def
      removeOldest_def server_post_prompt_def add_def js_or_def publish_def broadcastEvent_def
      Let_def)

section \<open>One batch of burst mode\<close>

lemma publish_keeps [simp]:
  "store (publish e d w) = store w" "spawned (publish e d w) = spawned w"
  by (simp_all add: publish_def)

lemma burst_http_keeps:
  "spawned (burst_http e w) = spawned w \<and> prefix (prompts (store w)) (prompts (store (burst_http e w)))"
proof (cases e)
  case (PostPrompt parsed t_id rnd t_ts)
  then show ?thesis
    by (auto simp: burst_post_prompt_def Let_def add_def split: option.splits)
qed (simp_all add: open_events_def close_events_def)

lemma burst_https_keeps:
  "spawned (burst_https evs w) = spawned w
   \<and> prefix (prompts (store w)) (prompts (store (burst_https evs w)))"
proof (induction evs arbitrary: w)
  case Nil
  then show ?case by (simp add: burst_https_def)
next
  case (Cons e evs)
  have "burst_https (e # evs) w = burst_https evs (burst_http e w)"
    by (simp add: burst_https_def)
  with Cons [of "burst_http e w"] burst_http_keeps [of e w] show ?case
    by (auto intro: prefix_order.trans)
qed

lemma countdown_keeps:
  "spawned (countdown n evs w) = spawned w
   \<and> prefix (prompts (store w)) (prompts (store (countdown n evs w)))"
proof (induction n arbitrary: w)
  case 0
  then show ?case by simp
next
  case (Suc n)
  from Suc [of "burst_https (evs (Suc n)) w"] burst_https_keeps [of "evs (Suc n)" w]
  show ?case by (auto intro: prefix_order.trans)
qed

lemma collect_window_keeps:
  "spawned (collect_window env w) = spawned w
   \<and> prefix (prompts (store w)) (prompts (store (collect_window env w)))"
  using countdown_keeps [of 10 "window_events env"
      "publish ''status'' [(''status'', JStr ''collecting'')] w"]
  by (simp add: collect_window_def)

lemma map_enumerate_nth:
  "map (\<lambda>(i, p). f i p) (enumerate 0 ps) = map (\<lambda>i. f i (ps ! i)) [0..<length ps]"
  by (rule nth_equalityI) (simp_all add: nth_enumerate_eq)

lemma those_None: "those xs = None \<longleftrightarrow> None \<in> set xs"
  by (induction xs) (auto split: option.splits)

lemma those_Some: "those xs = Some ys \<Longrightarrow> ys = map the xs"
  by (induction xs arbitrary: ys) (auto split: option.splits)

lemma fullPrompt_None:
  "fullPrompt h ps = None \<longleftrightarrow> \<not> list_all (\<lambda>p. prints (pathname p)) ps"
proof -
  have "None \<in> set (map (\<lambda>(i, p). prompt_section h i p) (enumerate 0 ps))
      \<longleftrightarrow> (\<exists>p \<in> set ps. \<not> prints (pathname p))"
  proof
    assume "None \<in> set (map (\<lambda>(i, p). prompt_section h i p) (enumerate 0 ps))"
    then obtain i p where ip: "(i, p) \<in> set (enumerate 0 ps)" "prompt_section h i p = None"
      by (auto simp: image_iff)
    from ip(1) have "p \<in> set ps" by (auto simp: in_set_enumerate_eq)
    moreover from ip(2) have "\<not> prints (pathname p)"
      by (simp add: prompt_section_def to_str_def split: if_splits)
    ultimately show "\<exists>p \<in> set ps. \<not> prints (pathname p)" by blast
  next
    assume "\<exists>p \<in> set ps. \<not> prints (pathname p)"
    then obtain p where p: "p \<in> set ps" "\<not> prints (pathname p)" by blast
    then obtain i where i: "i < length ps" "ps ! i = p" by (auto simp: in_set_conv_nth)
    then have "(i, p) \<in> set (enumerate 0 ps)" by (simp add: in_set_enumerate_eq)
    moreover from p(2) have "prompt_section h i p = None"
      by (simp add: prompt_section_def to_str_def)
    ultimately show "None \<in> set (map (\<lambda>(i, p). prompt_section h i p) (enumerate 0 ps))"
      by (force simp: image_iff)
  qed
  then show ?thesis
    by (simp add: fullPrompt_def combined_def those_None list_all_iff)
qed

lemma fullPrompt_Some:
  assumes "fullPrompt h ps = Some doc"
  shows "doc = ''You have received '' @ dec (length ps)
          @ '' prompt(s) from playground files. Process each one:'' @ nl @ nl
          @ join (nl @ nl @ ''---'' @ nl @ nl)
              (map (\<lambda>i. ''## Prompt '' @ dec (i + 1) @ '' (from ''
                         @ render (number_string h) (pathname (ps ! i)) @ '')'' @ nl @ nl
                         @ prompt (ps ! i)) [0..<length ps])"
proof -
  from assms have all: "list_all (\<lambda>p. prints (pathname p)) ps"
    using fullPrompt_None [of h ps] by auto
  from assms obtain ss where
    ss: "those (map (\<lambda>(i, p). prompt_section h i p) (enumerate 0 ps)) = Some ss"
    and doc: "doc = ''You have received '' @ dec (length ps)
          @ '' prompt(s) from playground files. Process each one:'' @ nl @ nl
          @ join (nl @ nl @ ''---'' @ nl @ nl) ss"
    by (auto simp: fullPrompt_def combined_def)
  from those_Some [OF ss]
  have "ss = map (\<lambda>i. the (prompt_section h i (ps ! i))) [0..<length ps]"
    by (simp add: map_enumerate_nth)
  also have "\<dots> = map (\<lambda>i. ''## Prompt '' @ dec (i + 1) @ '' (from ''
                         @ render (number_string h) (pathname (ps ! i)) @ '')'' @ nl @ nl
                         @ prompt (ps ! i)) [0..<length ps]"
    using all by (auto simp: prompt_section_def to_str_def list_all_length)
  finally show ?thesis using doc by simp
qed

lemma process_batch_nonempty:
  assumes "prompts (store w) \<noteq> []" "fullPrompt h (prompts (store w)) = Some doc"
  shows "process_batch h env_path env w =
     Inr (let w2 = burst_https (run_events env)
                 ((publish ''status'' [(''status'', JStr ''processing'')] w)
                    \<lparr>spawned := spawned w @ [fst (runClaudeCode env_path doc (child env))]\<rparr>)
          in (publish ''status'' [(''status'', JStr ''ready'')]
                (publish ''status'' [(''status'', JStr ''done'')] (w2\<lparr>store := clear (store w2)\<rparr>)),
              Some (child env = Close (Some 0))))"
proof -
  have "snd (runClaudeCode env_path doc (child env)) = (child env = Close (Some 0))"
    by (cases "child env") (simp_all add: runClaudeCode_def Let_def)
  with assms show ?thesis
    by (simp add: process_batch_def getAll_def Let_def case_prod_unfold)
qed

lemma process_batch_throws:
  assumes "prompts (store w) \<noteq> []" "fullPrompt h (prompts (store w)) = None"
  shows "process_batch h env_path env w =
     Inl (publish ''status'' [(''status'', JStr ''processing'')] w)"
  using assms by (simp add: process_batch_def getAll_def Let_def)

lemma broadcast_twice:
  "list_all (\<lambda>c. \<exists>ms. written c = ms @ [SseEvent e1 d1, SseEvent e2 d2])
     (broadcastEvent e2 d2 (broadcastEvent e1 d1 cs))"
  by (induction cs) (simp_all add: broadcastEvent_def)

lemma collect_window_child: "collect_window (env\<lparr>child := ev\<rparr>) w = collect_window env w"
  by (simp add: collect_window_def)

text \<open>The state after a batch, whatever the child reports.\<close>

lemma process_batch_effect:
  assumes "prompts (store w) \<noteq> []" "fullPrompt h (prompts (store w)) = Some doc"
  shows "\<exists>w'. (\<forall>ev. process_batch h env_path (env\<lparr>child := ev\<rparr>) w
                  = Inr (w', Some (ev = Close (Some 0))))
     \<and> prompts (store w') = []
     \<and> list_all (\<lambda>c. \<exists>ms. written c =
           ms @ [SseEvent ''status'' [(''status'', JStr ''done'')],
                 SseEvent ''status'' [(''status'', JStr ''ready'')]]) (sseClients w')
     \<and> spawned w' = spawned w @
          [\<lparr>command = findClaudePath env_path,
            args = [''--print'', ''--continue'', ''--permission-mode'', ''bypassPermissions'', doc],
            shell = (findClaudePath env_path = ''claude'')\<rparr>]"
proof -
  let ?w2 = "burst_https (run_events env)
                 ((publish ''status'' [(''status'', JStr ''processing'')] w)
                    \<lparr>spawned := spawned w @
          [\<lparr>command = findClaudePath env_path,
            args = [''--print'', ''--continue'', ''--permission-mode'', ''bypassPermissions'', doc],
            shell = (findClaudePath env_path = ''claude'')\<rparr>]\<rparr>)"
  let ?w' = "publish ''status'' [(''status'', JStr ''ready'')]
                (publish ''status'' [(''status'', JStr ''done'')] (?w2\<lparr>store := clear (store ?w2)\<rparr>))"
  have a: "process_batch h env_path (env\<lparr>child := ev\<rparr>) w = Inr (?w', Some (ev = Close (Some 0)))"
    for ev
    by (simp add: process_batch_nonempty [OF assms] Let_def runClaudeCode_def)
  have b: "prompts (store ?w') = []" by (simp add: clear_def)
  have c: "list_all (\<lambda>c. \<exists>ms. written c =
           ms @ [SseEvent ''status'' [(''status'', JStr ''done'')],
                 SseEvent ''status'' [(''status'', JStr ''ready'')]]) (sseClients ?w')"
    by (simp add: publish_def broadcast_twice)
  have d: "spawned ?w' = spawned w @
          [\<lparr>command = findClaudePath env_path,
            args = [''--print'', ''--continue'', ''--permission-mode'', ''bypassPermissions'', doc],
            shell = (findClaudePath env_path = ''claude'')\<rparr>]"
    by (simp add: burst_https_keeps)
  from a b c d show ?thesis by blast
qed

lemma burst_pass_effect:
  assumes "count (store w0) > 0"
    "fullPrompt h (prompts (store (collect_window env w0))) = Some doc0"
  shows "\<exists>w1. \<forall>ev. burst_pass h env_path (env\<lparr>child := ev\<rparr>) w0
                  = Inr (w1, Some (ev = Close (Some 0)))"
proof -
  from assms(1) have "prompts (store w0) \<noteq> []" by (simp add: count_def)
  with collect_window_keeps [of env w0]
  have ne: "prompts (store (collect_window env w0)) \<noteq> []" by auto
  from process_batch_effect [OF ne assms(2), of env_path env] obtain w' where
    w': "\<And>ev. process_batch h env_path (env\<lparr>child := ev\<rparr>) (collect_window env w0)
                  = Inr (w', Some (ev = Close (Some 0)))"
    by blast
  have "burst_pass h env_path (env\<lparr>child := ev\<rparr>) w0
      = Inr (burst_https (sleep_events env) w', Some (ev = Close (Some 0)))" for ev
    using assms(1) by (simp add: burst_pass_def collect_window_child w')
  then show ?thesis by blast
qed

text \<open>
  A pass that finds the queue non-empty, when every pathname pending at the end of its
  window prints: the prompts pending then are those pending at the start followed by
  those that arrived during the window, and there is at least one. The pass spawns
  exactly one child, whose last argument is one document: a header with the number of
  prompts, then one section per record in queue order, numbered from 1 and labelled with
  the record's pathname, with the record's text, the sections separated by a rule. Right
  after the batch the queue count is 0.
\<close>

lemma batch_coalesces:
  assumes "count (store w) > 0"
    and "list_all (\<lambda>p. prints (pathname p)) (prompts (store (collect_window env w)))"
  shows "\<exists>doc w2. prefix (prompts (store w)) (prompts (store (collect_window env w)))
     \<and> prompts (store (collect_window env w)) \<noteq> []
     \<and> process_batch h env_path env (collect_window env w)
         = Inr (w2, Some (child env = Close (Some 0)))
     \<and> spawned w2 = spawned w @
          [\<lparr>command = findClaudePath env_path,
            args = [''--print'', ''--continue'', ''--permission-mode'', ''bypassPermissions'', doc],
            shell = (findClaudePath env_path = ''claude'')\<rparr>]
     \<and> doc = ''You have received '' @ dec (length (prompts (store (collect_window env w))))
          @ '' prompt(s) from playground files. Process each one:'' @ nl @ nl
          @ join (nl @ nl @ ''---'' @ nl @ nl)
              (map (\<lambda>i. ''## Prompt '' @ dec (i + 1) @ '' (from ''
                         @ render (number_string h)
                             (pathname (prompts (store (collect_window env w)) ! i))
                         @ '')'' @ nl @ nl
                         @ prompt (prompts (store (collect_window env w)) ! i))
                 [0..<length (prompts (store (collect_window env w)))])
     \<and> count (store w2) = 0"
proof -
  let ?ps = "prompts (store (collect_window env w))"
  note keep = collect_window_keeps [of env w]
  from assms(1) have "prompts (store w) \<noteq> []" by (simp add: count_def)
  with keep have ne: "?ps \<noteq> []" by auto
  from assms(2) obtain doc where doc: "fullPrompt h ?ps = Some doc"
    using fullPrompt_None [of h ?ps] by (cases "fullPrompt h ?ps") auto
  from process_batch_effect [OF ne doc, of env_path env] obtain w2 where
    w2: "\<And>ev. process_batch h env_path (env\<lparr>child := ev\<rparr>) (collect_window env w)
            = Inr (w2, Some (ev = Close (Some 0)))"
      "prompts (store w2) = []"
      "spawned w2 = spawned (collect_window env w) @
          [\<lparr>command = findClaudePath env_path,
            args = [''--print'', ''--continue'', ''--permission-mode'', ''bypassPermissions'', doc],
            shell = (findClaudePath env_path = ''claude'')\<rparr>]"
    by blast
  from w2(1) [of "child env"]
  have a: "process_batch h env_path env (collect_window env w)
      = Inr (w2, Some (child env = Close (Some 0)))" by simp
  from w2(3) keep have b: "spawned w2 = spawned w @
          [\<lparr>command = findClaudePath env_path,
            args = [''--print'', ''--continue'', ''--permission-mode'', ''bypassPermissions'', doc],
            shell = (findClaudePath env_path = ''claude'')\<rparr>]" by simp
  from w2(2) have c: "count (store w2) = 0" by (simp add: count_def)
  note d = fullPrompt_Some [OF doc]
  from keep ne a b c d show ?thesis by blast
qed

text \<open>
  C8 fails on a record whose pathname does not print. With a prompt from \<^verbatim>\<open>/a\<close>
  pending, the handler of burst.ts answers the body
  \<^verbatim>\<open>{"prompt":"two","pathname":{"toString":1}}\<close> with 400, yet it has stored the
  record. The next pass of the loop publishes \<^verbatim>\<open>collecting\<close> and \<^verbatim>\<open>processing\<close>
  and then throws a TypeError while it builds the combined document: no child is spawned,
  neither prompt reaches the command, both records stay queued, and the loop has ended.
\<close>

theorem batch_throws_on_unprintable_pathname:
  "burst_post_prompt
      (Some (JObj [(''prompt'', JStr ''two''), (''pathname'', JObj [(''toString'', JNum 1)])]))
      20 ''b'' 20
      \<lparr>store = \<lparr>prompts = [\<lparr>pid = mk_id 10 ''a'', prompt = ''one'', url = JStr [],
                            pathname = JStr ''/a'', timestamp = 10\<rparr>]\<rparr>,
       sseClients = [\<lparr>conn = 1, written = []\<rparr>], spawned = []\<rparr>
    = (HttpResponse 400 [(''error'', JStr ''Invalid JSON'')],
       \<lparr>store = \<lparr>prompts = [\<lparr>pid = mk_id 10 ''a'', prompt = ''one'', url = JStr [],
                             pathname = JStr ''/a'', timestamp = 10\<rparr>,
                            \<lparr>pid = mk_id 20 ''b'', prompt = ''two'', url = JStr [],
                             pathname = JObj [(''toString'', JNum 1)], timestamp = 20\<rparr>]\<rparr>,
        sseClients = [\<lparr>conn = 1, written = []\<rparr>], spawned = []\<rparr>)
   \<and> burstLoop example_host None [idle_env]
       \<lparr>store = \<lparr>prompts = [\<lparr>pid = mk_id 10 ''a'', prompt = ''one'', url = JStr [],
                             pathname = JStr ''/a'', timestamp = 10\<rparr>,
                            \<lparr>pid = mk_id 20 ''b'', prompt = ''two'', url = JStr [],
                             pathname = JObj [(''toString'', JNum 1)], timestamp = 20\<rparr>]\<rparr>,
        sseClients = [\<lparr>conn = 1, written = []\<rparr>], spawned = []\<rparr>
    = (\<lparr>store = \<lparr>prompts = [\<lparr>pid = mk_id 10 ''a'', prompt = ''one'', url = JStr [],
                             pathname = JStr ''/a'', timestamp = 10\<rparr>,
                            \<lparr>pid = mk_id 20 ''b'', prompt = ''two'', url = JStr [],
                             pathname = JObj [(''toString'', JNum 1)], timestamp = 20\<rparr>]\<rparr>,
        sseClients = [\<lparr>conn = 1, written =
          [SseEvent ''status'' [(''status'', JStr ''collecting'')],
           SseEvent ''status'' [(''status'', JStr ''processing'')]]\<rparr>],
        spawned = []\<rparr>,
       [], False)"
  by (simp add: burst_post_prompt_def add_def js_or_def Let_def idle_env_def
      burst_pass_def count_def collect_window_def eval_nat_numeral burst_https_def
      process_batch_def getAll_def fullPrompt_def combined_def prompt_section_def to_str_def
      enumerate_eq_zip upt_rec [of 0] example_host_def publish_def broadcastEvent_def)

text \<open>The answer, the calls of the command and the queue after that pass, read off.\<close>

theorem batch_throws_on_unprintable_pathname_witness:
  "fst (burst_post_prompt
      (Some (JObj [(''prompt'', JStr ''two''), (''pathname'', JObj [(''toString'', JNum 1)])]))
      20 ''b'' 20
      \<lparr>store = \<lparr>prompts = [\<lparr>pid = mk_id 10 ''a'', prompt = ''one'', url = JStr [],
                            pathname = JStr ''/a'', timestamp = 10\<rparr>]\<rparr>,
       sseClients = [\<lparr>conn = 1, written = []\<rparr>], spawned = []\<rparr>)
    = HttpResponse 400 [(''error'', JStr ''Invalid JSON'')]
   \<and> spawned (fst (burstLoop example_host None [idle_env]
       \<lparr>store = \<lparr>prompts = [\<lparr>pid = mk_id 10 ''a'', prompt = ''one'', url = JStr [],
                             pathname = JStr ''/a'', timestamp = 10\<rparr>,
                            \<lparr>pid = mk_id 20 ''b'', prompt = ''two'', url = JStr [],
                             pathname = JObj [(''toString'', JNum 1)], timestamp = 20\<rparr>]\<rparr>,
        sseClients = [\<lparr>conn = 1, written = []\<rparr>], spawned = []\<rparr>)) = []
   \<and> count (store (fst (burstLoop example_host None [idle_env]
       \<lparr>store = \<lparr>prompts = [\<lparr>pid = mk_id 10 ''a'', prompt = ''one'', url = JStr [],
                             pathname = JStr ''/a'', timestamp = 10\<rparr>,
                            \<lparr>pid = mk_id 20 ''b'', prompt = ''two'', url = JStr [],
                             pathname = JObj [(''toString'', JNum 1)], timestamp = 20\<rparr>]\<rparr>,
        sseClients = [\<lparr>conn = 1, written = []\<rparr>], spawned = []\<rparr>))) = 2
   \<and> snd (snd (burstLoop example_host None [idle_env]
       \<lparr>store = \<lparr>prompts = [\<lparr>pid = mk_id 10 ''a'', prompt = ''one'', url = JStr [],
                             pathname = JStr ''/a'', timestamp = 10\<rparr>,
                            \<lparr>pid = mk_id 20 ''b'', prompt = ''two'', url = JStr [],
                             pathname = JObj [(''toString'', JNum 1)], timestamp = 20\<rparr>]\<rparr>,
        sseClients = [\<lparr>conn = 1, written = []\<rparr>], spawned = []\<rparr>)) = False"
  using batch_throws_on_unprintable_pathname
  by (simp add: count_def)

text \<open>
  C5. When a batch gets as far as the command (the snapshot is not empty and its document
  is built), the state after the batch is the same whatever the child reports: an exit
  code of zero, any other exit code, a signal, or an \<^verbatim>\<open>error\<close> event because the
  command could not be started. In that state the queue is empty, the last two messages
  of every subscriber are the statuses \<^verbatim>\<open>done\<close> and \<^verbatim>\<open>ready\<close>, in that order,
  and the command has been called once more. Only \<^verbatim>\<open>result.success\<close> differs, and it
  is false for the \<^verbatim>\<open>error\<close> event. The loop goes on: the pass ends in the same
  state whatever the child reports, the loop is still running after it, and it makes
  its later passes from that state.
\<close>

theorem batch_clears_whatever_the_child_reports:
  assumes "prompts (store w) \<noteq> []"
    and "fullPrompt h (prompts (store w)) = Some doc"
    and "count (store w0) > 0"
    and "fullPrompt h (prompts (store (collect_window env w0))) = Some doc0"
  shows "(\<exists>w'. process_batch h env_path env w = Inr (w', Some (child env = Close (Some 0)))
            \<and> process_batch h env_path (env\<lparr>child := ev\<rparr>) w = Inr (w', Some (ev = Close (Some 0)))
            \<and> process_batch h env_path (env\<lparr>child := Error msg\<rparr>) w = Inr (w', Some False)
            \<and> prompts (store w') = []
            \<and> list_all (\<lambda>c. \<exists>ms. written c =
                  ms @ [SseEvent ''status'' [(''status'', JStr ''done'')],
                        SseEvent ''status'' [(''status'', JStr ''ready'')]]) (sseClients w')
            \<and> spawned w' = spawned w @
                [\<lparr>command = findClaudePath env_path,
                  args = [''--print'', ''--continue'', ''--permission-mode'',
                          ''bypassPermissions'', doc],
                  shell = (findClaudePath env_path = ''claude'')\<rparr>])
     \<and> (\<exists>w1. burst_pass h env_path env w0 = Inr (w1, Some (child env = Close (Some 0)))
            \<and> burst_pass h env_path (env\<lparr>child := ev\<rparr>) w0 = Inr (w1, Some (ev = Close (Some 0)))
            \<and> burst_pass h env_path (env\<lparr>child := Error msg\<rparr>) w0 = Inr (w1, Some False)
            \<and> burstLoop h env_path [env\<lparr>child := ev\<rparr>] w0
                = (w1, [Some (ev = Close (Some 0))], True)
            \<and> burstLoop h env_path (env\<lparr>child := ev\<rparr> # envs) w0
                = (fst (burstLoop h env_path envs w1),
                   Some (ev = Close (Some 0)) # fst (snd (burstLoop h env_path envs w1)),
                   snd (snd (burstLoop h env_path envs w1))))"
proof (rule conjI)
  from process_batch_effect [OF assms(1,2), of env_path env] obtain w' where
    w': "\<And>ev. process_batch h env_path (env\<lparr>child := ev\<rparr>) w
            = Inr (w', Some (ev = Close (Some 0)))"
      "prompts (store w') = []"
      "list_all (\<lambda>c. \<exists>ms. written c =
                  ms @ [SseEvent ''status'' [(''status'', JStr ''done'')],
                        SseEvent ''status'' [(''status'', JStr ''ready'')]]) (sseClients w')"
      "spawned w' = spawned w @
                [\<lparr>command = findClaudePath env_path,
                  args = [''--print'', ''--continue'', ''--permission-mode'',
                          ''bypassPermissions'', doc],
                  shell = (findClaudePath env_path = ''claude'')\<rparr>]"
    by blast
  from w'(1) [of "child env"]
  have a: "process_batch h env_path env w = Inr (w', Some (child env = Close (Some 0)))"
    by simp
  from w'(1) [of "Error msg"]
  have b: "process_batch h env_path (env\<lparr>child := Error msg\<rparr>) w = Inr (w', Some False)"
    by simp
  from a w'(1) [of ev] b w'(2,3,4)
  show "\<exists>w'. process_batch h env_path env w = Inr (w', Some (child env = Close (Some 0)))
            \<and> process_batch h env_path (env\<lparr>child := ev\<rparr>) w = Inr (w', Some (ev = Close (Some 0)))
            \<and> process_batch h env_path (env\<lparr>child := Error msg\<rparr>) w = Inr (w', Some False)
            \<and> prompts (store w') = []
            \<and> list_all (\<lambda>c. \<exists>ms. written c =
                  ms @ [SseEvent ''status'' [(''status'', JStr ''done'')],
                        SseEvent ''status'' [(''status'', JStr ''ready'')]]) (sseClients w')
            \<and> spawned w' = spawned w @
                [\<lparr>command = findClaudePath env_path,
                  args = [''--print'', ''--continue'', ''--permission-mode'',
                          ''bypassPermissions'', doc],
                  shell = (findClaudePath env_path = ''claude'')\<rparr>]"
    by blast
next
  from burst_pass_effect [OF assms(3,4), of env_path] obtain w1 where
    w1: "\<And>ev. burst_pass h env_path (env\<lparr>child := ev\<rparr>) w0
            = Inr (w1, Some (ev = Close (Some 0)))"
    by blast
  from w1 [of "child env"]
  have a: "burst_pass h env_path env w0 = Inr (w1, Some (child env = Close (Some 0)))"
    by simp
  from w1 [of "Error msg"]
  have b: "burst_pass h env_path (env\<lparr>child := Error msg\<rparr>) w0 = Inr (w1, Some False)"
    by simp
  have c: "burstLoop h env_path [env\<lparr>child := ev\<rparr>] w0
                = (w1, [Some (ev = Close (Some 0))], True)"
    by (simp add: w1)
  have d: "burstLoop h env_path (env\<lparr>child := ev\<rparr> # envs) w0
                = (fst (burstLoop h env_path envs w1),
                   Some (ev = Close (Some 0)) # fst (snd (burstLoop h env_path envs w1)),
                   snd (snd (burstLoop h env_path envs w1)))"
    by (simp add: w1 case_prod_unfold Let_def)
  from a w1 [of ev] b c d
  show "\<exists>w1. burst_pass h env_path env w0 = Inr (w1, Some (child env = Close (Some 0)))
            \<and> burst_pass h env_path (env\<lparr>child := ev\<rparr>) w0 = Inr (w1, Some (ev = Close (Some 0)))
            \<and> burst_pass h env_path (env\<lparr>child := Error msg\<rparr>) w0 = Inr (w1, Some False)
            \<and> burstLoop h env_path [env\<lparr>child := ev\<rparr>] w0
                = (w1, [Some (ev = Close (Some 0))], True)
            \<and> burstLoop h env_path (env\<lparr>child := ev\<rparr> # envs) w0
                = (fst (burstLoop h env_path envs w1),
                   Some (ev = Close (Some 0)) # fst (snd (burstLoop h env_path envs w1)),
                   snd (snd (burstLoop h env_path envs w1)))"
    by blast
qed

text \<open>
  Two passes with a subscriber listening. The command cannot be started on the first
  (\<^verbatim>\<open>spawn ENOENT\<close>); a prompt from \<^verbatim>\<open>/b\<close> arrives during the sleep that ends
  it, and the second pass sends that prompt to a child that exits with status 1. After
  both passes the queue is empty, the subscriber has received \<^verbatim>\<open>collecting\<close>,
  \<^verbatim>\<open>processing\<close>, \<^verbatim>\<open>done\<close> and \<^verbatim>\<open>ready\<close> twice, and the loop is running.
\<close>

theorem batch_clears_whatever_the_child_reports_witness:
  "prompts (store
      \<lparr>store = \<lparr>prompts = [\<lparr>pid = mk_id 10 ''a'', prompt = ''one'', url = JStr [],
                              pathname = JStr ''/a'', timestamp = 10\<rparr>]\<rparr>,
       sseClients = [\<lparr>conn = 1, written = []\<rparr>], spawned = []\<rparr>) \<noteq> []
   \<and> fullPrompt example_host (prompts (store
      \<lparr>store = \<lparr>prompts = [\<lparr>pid = mk_id 10 ''a'', prompt = ''one'', url = JStr [],
                              pathname = JStr ''/a'', timestamp = 10\<rparr>]\<rparr>,
       sseClients = [\<lparr>conn = 1, written = []\<rparr>], spawned = []\<rparr>))
      = Some (''You have received '' @ dec 1
              @ '' prompt(s) from playground files. Process each one:'' @ nl @ nl
              @ ''## Prompt '' @ dec 1 @ '' (from /a)'' @ nl @ nl @ ''one'')
   \<and> 0 < count (store
      \<lparr>store = \<lparr>prompts = [\<lparr>pid = mk_id 10 ''a'', prompt = ''one'', url = JStr [],
                              pathname = JStr ''/a'', timestamp = 10\<rparr>]\<rparr>,
       sseClients = [\<lparr>conn = 1, written = []\<rparr>], spawned = []\<rparr>)
   \<and> fullPrompt example_host (prompts (store (collect_window
        (idle_env\<lparr>sleep_events :=
           [PostPrompt (Some (JObj [(''prompt'', JStr ''two''), (''pathname'', JStr ''/b'')]))
              20 ''b'' 20]\<rparr>)
        \<lparr>store = \<lparr>prompts = [\<lparr>pid = mk_id 10 ''a'', prompt = ''one'', url = JStr [],
                              pathname = JStr ''/a'', timestamp = 10\<rparr>]\<rparr>,
         sseClients = [\<lparr>conn = 1, written = []\<rparr>], spawned = []\<rparr>)))
      = Some (''You have received '' @ dec 1
              @ '' prompt(s) from playground files. Process each one:'' @ nl @ nl
              @ ''## Prompt '' @ dec 1 @ '' (from /a)'' @ nl @ nl @ ''one'')
   \<and> burstLoop example_host None
        [idle_env\<lparr>sleep_events :=
           [PostPrompt (Some (JObj [(''prompt'', JStr ''two''), (''pathname'', JStr ''/b'')]))
              20 ''b'' 20]\<rparr>\<lparr>child := Error ''spawn ENOENT''\<rparr>,
         idle_env\<lparr>child := Close (Some 1)\<rparr>]
        \<lparr>store = \<lparr>prompts = [\<lparr>pid = mk_id 10 ''a'', prompt = ''one'', url = JStr [],
                              pathname = JStr ''/a'', timestamp = 10\<rparr>]\<rparr>,
         sseClients = [\<lparr>conn = 1, written = []\<rparr>], spawned = []\<rparr>
     = (\<lparr>store = \<lparr>prompts = []\<rparr>,
         sseClients = [\<lparr>conn = 1, written =
           [SseEvent ''status'' [(''status'', JStr ''collecting'')],
            SseEvent ''status'' [(''status'', JStr ''processing'')],
            SseEvent ''status'' [(''status'', JStr ''done'')],
            SseEvent ''status'' [(''status'', JStr ''ready'')],
            SseEvent ''status'' [(''status'', JStr ''collecting'')],
            SseEvent ''status'' [(''status'', JStr ''processing'')],
            SseEvent ''status'' [(''status'', JStr ''done'')],
            SseEvent ''status'' [(''status'', JStr ''ready'')]]\<rparr>],
         spawned =
           [\<lparr>command = ''/opt/homebrew/bin/claude'',
             args = [''--print'', ''--continue'', ''--permission-mode'', ''bypassPermissions'',
               ''You have received '' @ dec 1
               @ '' prompt(s) from playground files. Process each one:'' @ nl @ nl
               @ ''## Prompt '' @ dec 1 @ '' (from /a)'' @ nl @ nl @ ''one''],
             shell = False\<rparr>,
            \<lparr>command = ''/opt/homebrew/bin/claude'',
             args = [''--print'', ''--continue'', ''--permission-mode'', ''bypassPermissions'',
               ''You have received '' @ dec 1
               @ '' prompt(s) from playground files. Process each one:'' @ nl @ nl
               @ ''## Prompt '' @ dec 1 @ '' (from /b)'' @ nl @ nl @ ''two''],
             shell = False\<rparr>]\<rparr>,
        [Some False, Some False], True)"
  using batch_clears_whatever_the_child_reports [where
      w = "\<lparr>store = \<lparr>prompts = [\<lparr>pid = mk_id 10 ''a'', prompt = ''one'', url = JStr [],
                              pathname = JStr ''/a'', timestamp = 10\<rparr>]\<rparr>,
       sseClients = [\<lparr>conn = 1, written = []\<rparr>], spawned = []\<rparr>"
      and h = example_host and env_path = None
      and doc = "''You have received '' @ dec 1
              @ '' prompt(s) from playground files. Process each one:'' @ nl @ nl
              @ ''## Prompt '' @ dec 1 @ '' (from /a)'' @ nl @ nl @ ''one''"
      and ?doc0.0 = "''You have received '' @ dec 1
              @ '' prompt(s) from playground files. Process each one:'' @ nl @ nl
              @ ''## Prompt '' @ dec 1 @ '' (from /a)'' @ nl @ nl @ ''one''"
      and ?w0.0 = "\<lparr>store = \<lparr>prompts = [\<lparr>pid = mk_id 10 ''a'', prompt = ''one'', url = JStr [],
                              pathname = JStr ''/a'', timestamp = 10\<rparr>]\<rparr>,
       sseClients = [\<lparr>conn = 1, written = []\<rparr>], spawned = []\<rparr>"
      and env = "idle_env\<lparr>sleep_events :=
           [PostPrompt (Some (JObj [(''prompt'', JStr ''two''), (''pathname'', JStr ''/b'')]))
              20 ''b'' 20]\<rparr>"
      and ev = "Error ''spawn ENOENT''" and msg = "''spawn ENOENT''"
      and envs = "[idle_env\<lparr>child := Close (Some 1)\<rparr>]"]
  by (simp add: idle_env_def burst_pass_def count_def collect_window_def eval_nat_numeral
      burst_https_def burst_post_prompt_def add_def js_or_def Let_def
      process_batch_def getAll_def clear_def runClaudeCode_def findClaudePath_def
      fullPrompt_def combined_def prompt_section_def to_str_def
      enumerate_eq_zip upt_rec [of 0] example_host_def publish_def broadcastEvent_def)

end
